theory Spec2Isabelle
  imports Main "HOL-Library.AList"
begin

section \<open>Strings and numbers of the host language\<close>

text \<open>
  Both scripts run in a browser.  What they take from the language itself is modelled
  here: the conversion of a number to a string, \<open>padStart\<close>, \<open>slice\<close>, \<open>trim\<close>
  and the word characters of a regular expression.  A number that is \<open>NaN\<close> is
  \<open>None\<close>; every other number the scripts meet is an integer.
\<close>

definition digit :: "nat \<Rightarrow> char" where
  "digit n = ''0123456789'' ! (n mod 10)"

fun dec_nat :: "nat \<Rightarrow> string" where
  "dec_nat n = (if n < 10 then [digit n] else dec_nat (n div 10) @ [digit n])"

declare dec_nat.simps [simp del]

text \<open>\<open>String(n)\<close> for an integer \<open>n\<close>, and for \<open>NaN\<close>.\<close>

definition int_string :: "int \<Rightarrow> string" where
  "int_string i = (if i < 0 then ''-'' @ dec_nat (nat (- i)) else dec_nat (nat i))"

definition number_string :: "int option \<Rightarrow> string" where
  "number_string x = (case x of None \<Rightarrow> ''NaN'' | Some i \<Rightarrow> int_string i)"

text \<open>\<open>s.padStart(n, '0')\<close> and \<open>s.slice(-2)\<close>.\<close>

definition padStart :: "nat \<Rightarrow> string \<Rightarrow> string" where
  "padStart n s = replicate (n - length s) (CHR ''0'') @ s"

definition slice_last2 :: "string \<Rightarrow> string" where
  "slice_last2 s = drop (length s - 2) s"

text \<open>
  \<open>s.trim()\<close> removes white space and line terminators at both ends; of the code
  units below 256 these are tab, line feed, vertical tab, form feed, carriage return,
  space and the no-break space.
\<close>

definition is_space :: "char \<Rightarrow> bool" where
  "is_space c = (of_char c \<in> {9, 10, 11, 12, 13, 32, 160 :: nat})"

definition trim :: "string \<Rightarrow> string" where
  "trim s = rev (dropWhile is_space (rev (dropWhile is_space s)))"

text \<open>
  The characters \<open>\w\<close> of a regular expression without the unicode flag: the letters
  \<open>a\<close> to \<open>z\<close> (code units 97 to 122) and \<open>A\<close> to \<open>Z\<close> (65 to 90), the digits
  (48 to 57) and the underscore (95).
\<close>

definition is_word :: "char \<Rightarrow> bool" where
  "is_word c =
     (let n = (of_char c :: nat)
      in (97 \<le> n \<and> n \<le> 122) \<or> (65 \<le> n \<and> n \<le> 90) \<or> (48 \<le> n \<and> n \<le> 57) \<or> n = 95)"


section \<open>The Date object\<close>

text \<open>
  A Date holds a time value: the milliseconds since 1970-01-01T00:00:00Z, or \<open>NaN\<close>
  (\<open>None\<close>, an invalid date).  The functions below are those of ECMA-262, section
  "Date Objects"; months and week days count from 0 there.
\<close>

definition msPerDay :: int where
  "msPerDay = 86400000"

definition Day :: "int \<Rightarrow> int" where
  "Day t = t div msPerDay"

definition TimeWithinDay :: "int \<Rightarrow> int" where
  "TimeWithinDay t = t mod msPerDay"

definition DaysInYear :: "int \<Rightarrow> int" where
  "DaysInYear y =
     (if y mod 4 \<noteq> 0 then 365 else if y mod 100 \<noteq> 0 then 366
      else if y mod 400 \<noteq> 0 then 365 else 366)"

definition DayFromYear :: "int \<Rightarrow> int" where
  "DayFromYear y =
     365 * (y - 1970) + (y - 1969) div 4 - (y - 1901) div 100 + (y - 1601) div 400"

text \<open>
  ECMA-262 defines the year of a time value as the largest \<open>y\<close> whose first day is not
  after it.  It is computed the way engines do: an estimate from the mean length of a
  year, moved by one year where the estimate is off (lemma \<open>YearFromDay_bounds\<close>
  shows that the result is the year the standard defines).
\<close>

definition YearFromDay :: "int \<Rightarrow> int" where
  "YearFromDay d =
     (let y = (d * 400) div 146097 + 1970 in
      if d < DayFromYear y then y - 1
      else if DayFromYear (y + 1) \<le> d then y + 1
      else y)"

definition YearFromTime :: "int \<Rightarrow> int" where
  "YearFromTime t = YearFromDay (Day t)"

definition InLeapYear :: "int \<Rightarrow> int" where
  "InLeapYear t = (if DaysInYear (YearFromTime t) = 366 then 1 else 0)"

definition DayWithinYear :: "int \<Rightarrow> int" where
  "DayWithinYear t = Day t - DayFromYear (YearFromTime t)"

definition MonthFromTime :: "int \<Rightarrow> int" where
  "MonthFromTime t =
     (let d = DayWithinYear t; l = InLeapYear t in
      if d < 31 then 0
      else if d < 59 + l then 1
      else if d < 90 + l then 2
      else if d < 120 + l then 3
      else if d < 151 + l then 4
      else if d < 181 + l then 5
      else if d < 212 + l then 6
      else if d < 243 + l then 7
      else if d < 273 + l then 8
      else if d < 304 + l then 9
      else if d < 334 + l then 10
      else 11)"

definition DateFromTime :: "int \<Rightarrow> int" where
  "DateFromTime t =
     (let d = DayWithinYear t; l = InLeapYear t; m = MonthFromTime t in
      if m = 0 then d + 1
      else if m = 1 then d - 30
      else if m = 2 then d - 58 - l
      else if m = 3 then d - 89 - l
      else if m = 4 then d - 119 - l
      else if m = 5 then d - 150 - l
      else if m = 6 then d - 180 - l
      else if m = 7 then d - 211 - l
      else if m = 8 then d - 242 - l
      else if m = 9 then d - 272 - l
      else if m = 10 then d - 303 - l
      else d - 333 - l)"

definition WeekDay :: "int \<Rightarrow> int" where
  "WeekDay t = (Day t + 4) mod 7"

definition HourFromTime :: "int \<Rightarrow> int" where
  "HourFromTime t = (t div 3600000) mod 24"

definition MinFromTime :: "int \<Rightarrow> int" where
  "MinFromTime t = (t div 60000) mod 60"

definition SecFromTime :: "int \<Rightarrow> int" where
  "SecFromTime t = (t div 1000) mod 60"

definition msFromTime :: "int \<Rightarrow> int" where
  "msFromTime t = t mod 1000"

text \<open>The days of a year before its month \<open>m\<close> (from 0), and the length of the month.\<close>

definition DaysBeforeMonth :: "int \<Rightarrow> int \<Rightarrow> int" where
  "DaysBeforeMonth y m =
     [0, 31, 59, 90, 120, 151, 181, 212, 243, 273, 304, 334] ! nat m
       + (if 2 \<le> m \<and> DaysInYear y = 366 then 1 else 0)"

definition DaysInMonth :: "int \<Rightarrow> int \<Rightarrow> int" where
  "DaysInMonth y m =
     (if m = 1 then (if DaysInYear y = 366 then 29 else 28)
      else [31, 28, 31, 30, 31, 30, 31, 31, 30, 31, 30, 31] ! nat m)"

text \<open>\<open>MakeDay\<close> for a month in \<open>0..11\<close>, and the time value of a day's midnight.\<close>

definition MakeDay :: "int \<Rightarrow> int \<Rightarrow> int \<Rightarrow> int" where
  "MakeDay y m dt = DayFromYear y + DaysBeforeMonth y m + dt - 1"

definition MakeDate :: "int \<Rightarrow> int \<Rightarrow> int" where
  "MakeDate dy tm = dy * msPerDay + tm"


section \<open>The document\<close>

text \<open>
  The name of an element: its namespace (\<open>None\<close> for \<open>null\<close>), its prefix and its
  local name (\<open>time\<close>, \<open>div\<close>, ...).  The elements that the HTML parser makes for
  the tags of HTML are in the HTML namespace and have no prefix; an element below
  \<open>svg\<close> or \<open>math\<close>, or one made by \<open>createElementNS\<close>, can be in another
  namespace.
\<close>

datatype qname =
  QName (namespaceURI: "string option") (prefix: "string option") (localName: string)

definition html_namespace :: string where
  "html_namespace = ''http://www.w3.org/1999/xhtml''"

definition html_name :: "string \<Rightarrow> qname" where
  "html_name n = QName (Some html_namespace) None n"

definition qualifiedName :: "qname \<Rightarrow> string" where
  "qualifiedName q =
     (case prefix q of None \<Rightarrow> localName q | Some p \<Rightarrow> p @ '':'' @ localName q)"

text \<open>
  The page is a tree of nodes: a text node, or an element with its identity, its
  name, its attributes in the order they were set and its child nodes.  A script holds
  an element by its identity, so an element is read from the tree as it is when the
  script gets to it.
\<close>

datatype node =
  Text string
| Elem (ident: nat) (name_of: qname) (attrs: "(string \<times> string) list")
    (childNodes: "node list")

text \<open>\<open>textContent\<close>: the text of all text nodes below, in tree order.\<close>

fun textContent :: "node \<Rightarrow> string" where
  "textContent (Text s) = s"
| "textContent (Elem i n a ks) = concat (map textContent ks)"

text \<open>The elements of a tree in tree order, the root first.\<close>

fun elements :: "node \<Rightarrow> node list" where
  "elements (Text s) = []"
| "elements (Elem i n a ks) = Elem i n a ks # concat (map elements ks)"

definition lookup :: "nat \<Rightarrow> node \<Rightarrow> node option" where
  "lookup r doc = find (\<lambda>e. ident e = r) (elements doc)"

text \<open>
  The element \<open>r\<close> and the elements above it, the nearest first; empty when \<open>r\<close> is
  not in the tree.
\<close>

fun ancestors :: "nat \<Rightarrow> node \<Rightarrow> nat list" where
  "ancestors r (Text s) = []"
| "ancestors r (Elem i n a ks) =
     (if i = r then [i]
      else (case filter (\<lambda>p. p \<noteq> []) (map (ancestors r) ks) of
              [] \<Rightarrow> []
            | p # _ \<Rightarrow> p @ [i]))"

definition parentElement :: "nat \<Rightarrow> node \<Rightarrow> nat option" where
  "parentElement r doc = (case ancestors r doc of _ # p # _ \<Rightarrow> Some p | _ \<Rightarrow> None)"

text \<open>
  \<open>getAttribute\<close> gives \<open>null\<close> (\<open>None\<close>) for an attribute that is not set;
  \<open>setAttribute\<close> replaces the value of an attribute that is set and appends a new
  one otherwise.
\<close>

definition getAttribute :: "node \<Rightarrow> string \<Rightarrow> string option" where
  "getAttribute el k = map_of (attrs el) k"

fun map_attrs ::
  "nat \<Rightarrow> ((string \<times> string) list \<Rightarrow> (string \<times> string) list) \<Rightarrow> node \<Rightarrow> node" where
  "map_attrs r f (Text s) = Text s"
| "map_attrs r f (Elem i n a ks) =
     Elem i n (if i = r then f a else a) (map (map_attrs r f) ks)"

definition setAttribute :: "nat \<Rightarrow> string \<Rightarrow> string \<Rightarrow> node \<Rightarrow> node" where
  "setAttribute r k v doc = map_attrs r (AList.update k v) doc"

definition upper :: "char \<Rightarrow> char" where
  "upper c =
     (case map_of (zip ''abcdefghijklmnopqrstuvwxyz'' ''ABCDEFGHIJKLMNOPQRSTUVWXYZ'') c of
        None \<Rightarrow> c | Some u \<Rightarrow> u)"



section \<open>The browser\<close>

text \<open>
  What the scripts take from the browser and cannot be read off their source is a
  parameter of the model:
  \<^item> \<open>tza\<close>: the offset of local time from UTC, in milliseconds, at a time value
    (\<open>LocalTZA\<close> of ECMA-262; it depends on the visitor's time zone);
  \<^item> \<open>parse_other\<close>: what \<open>Date.parse\<close> makes of a string that is not in the
    date-only format \<open>YYYY-MM-DD\<close> (ECMA-262 leaves this to the implementation;
    the result is a time value, or \<open>None\<close> for \<open>NaN\<close>);
  \<^item> \<open>sel_matches\<close>: whether an element (given by its identity) of a tree matches a
    CSS selector; the selectors handed to the scripts are taken to be well formed;
  \<^item> \<open>parse_html\<close>: the nodes that the HTML fragment parser builds from markup,
    with identities from the given number on;
  \<^item> \<open>html_document\<close>: whether the page was loaded as an HTML document (and not as
    an XML document).
\<close>

record browser =
  tza :: "int \<Rightarrow> int"
  parse_other :: "string \<Rightarrow> int option"
  sel_matches :: "string \<Rightarrow> node \<Rightarrow> nat \<Rightarrow> bool"
  parse_html :: "string \<Rightarrow> nat \<Rightarrow> node list"
  html_document :: bool

text \<open>
  \<open>tagName\<close>: the qualified name of the element, in ASCII upper case when the
  element is in the HTML namespace and the document is an HTML document, and as it is
  otherwise (so \<open>TIME\<close> for a \<open>time\<close> element of HTML, and \<open>time\<close> for one below
  \<open>svg\<close>).
\<close>

definition tagName :: "browser \<Rightarrow> node \<Rightarrow> string" where
  "tagName b el =
     (if namespaceURI (name_of el) = Some html_namespace \<and> html_document b
      then map upper (qualifiedName (name_of el))
      else qualifiedName (name_of el))"

definition LocalTime :: "browser \<Rightarrow> int \<Rightarrow> int" where
  "LocalTime b t = t + tza b t"

text \<open>
  The date-only format of \<open>Date.parse\<close>: four digits, two digits, two digits, with
  a month in 1..12 and a day of that month; such a string is midnight UTC of that day.
\<close>

definition is_digit :: "char \<Rightarrow> bool" where
  "is_digit c = (c \<in> set ''0123456789'')"

definition digit_val :: "char \<Rightarrow> int" where
  "digit_val c = int (length (takeWhile (\<lambda>d. d \<noteq> c) ''0123456789''))"

definition digits_val :: "string \<Rightarrow> int" where
  "digits_val s = foldl (\<lambda>a c. 10 * a + digit_val c) 0 s"

definition parse_date_only :: "string \<Rightarrow> int option" where
  "parse_date_only s =
     (if length s = 10 \<and> s ! 4 = CHR ''-'' \<and> s ! 7 = CHR ''-''
         \<and> list_all is_digit (take 4 s) \<and> list_all is_digit (take 2 (drop 5 s))
         \<and> list_all is_digit (drop 8 s)
      then
        (let y = digits_val (take 4 s); m = digits_val (take 2 (drop 5 s));
             d = digits_val (drop 8 s)
         in if 1 \<le> m \<and> m \<le> 12 \<and> 1 \<le> d \<and> d \<le> DaysInMonth y (m - 1)
            then Some (MakeDate (MakeDay y (m - 1) d) 0) else None)
      else None)"

text \<open>\<open>new Date(s)\<close> for a string \<open>s\<close>: the time value of the new object.\<close>

definition new_Date :: "browser \<Rightarrow> string \<Rightarrow> int option" where
  "new_Date b s =
     (case parse_date_only s of Some t \<Rightarrow> Some t | None \<Rightarrow> parse_other b s)"

text \<open>
  The getters read local time; each gives \<open>NaN\<close> on an invalid date.
  \<open>getMonth\<close> counts from 0.
\<close>

definition getFullYear :: "browser \<Rightarrow> int option \<Rightarrow> int option" where
  "getFullYear b = map_option (\<lambda>t. YearFromTime (LocalTime b t))"

definition getMonth :: "browser \<Rightarrow> int option \<Rightarrow> int option" where
  "getMonth b = map_option (\<lambda>t. MonthFromTime (LocalTime b t))"

definition getDate :: "browser \<Rightarrow> int option \<Rightarrow> int option" where
  "getDate b = map_option (\<lambda>t. DateFromTime (LocalTime b t))"

text \<open>
  \<open>toISOString\<close> reads UTC.  A year outside 0..9999 is written with a sign and six
  digits.  It is only called on a valid date here.
\<close>

definition iso_year :: "int \<Rightarrow> string" where
  "iso_year y =
     (if 0 \<le> y \<and> y \<le> 9999 then padStart 4 (dec_nat (nat y))
      else (if y < 0 then ''-'' else ''+'') @ padStart 6 (dec_nat (nat \<bar>y\<bar>)))"

definition pad_int :: "nat \<Rightarrow> int \<Rightarrow> string" where
  "pad_int n i = padStart n (dec_nat (nat i))"

definition toISOString :: "int \<Rightarrow> string" where
  "toISOString t =
     iso_year (YearFromTime t) @ ''-'' @ pad_int 2 (MonthFromTime t + 1) @ ''-''
       @ pad_int 2 (DateFromTime t) @ ''T'' @ pad_int 2 (HourFromTime t) @ '':''
       @ pad_int 2 (MinFromTime t) @ '':'' @ pad_int 2 (SecFromTime t) @ ''.''
       @ pad_int 3 (msFromTime t) @ ''Z''"

text \<open>\<open>s.split('T')[0]\<close>: the part of \<open>s\<close> before its first \<open>T\<close>.\<close>

definition split_T_first :: "string \<Rightarrow> string" where
  "split_T_first s = takeWhile (\<lambda>c. c \<noteq> CHR ''T'') s"

text \<open>
  \<open>toLocaleDateString('en-US', {month: ...})\<close> and \<open>{weekday: ...}\<close>: the English
  names of the local month and week day.
\<close>

definition month_long :: "int \<Rightarrow> string" where
  "month_long m = [''January'', ''February'', ''March'', ''April'', ''May'', ''June'',
     ''July'', ''August'', ''September'', ''October'', ''November'', ''December''] ! nat m"

definition month_short :: "int \<Rightarrow> string" where
  "month_short m = [''Jan'', ''Feb'', ''Mar'', ''Apr'', ''May'', ''Jun'',
     ''Jul'', ''Aug'', ''Sep'', ''Oct'', ''Nov'', ''Dec''] ! nat m"

definition weekday_long :: "int \<Rightarrow> string" where
  "weekday_long w = [''Sunday'', ''Monday'', ''Tuesday'', ''Wednesday'', ''Thursday'',
     ''Friday'', ''Saturday''] ! nat w"

definition weekday_short :: "int \<Rightarrow> string" where
  "weekday_short w = [''Sun'', ''Mon'', ''Tue'', ''Wed'', ''Thu'', ''Fri'', ''Sat''] ! nat w"


section \<open>The formatter: token substitution\<close>

text \<open>
  The table \<open>tokens\<close> of \<open>formatDate\<close> for a valid date \<open>t\<close>, in the order its keys
  are written: each code with its computed text and its class name.  A number is
  converted to a string when it is put into the template literal.
\<close>

definition tokens :: "browser \<Rightarrow> int \<Rightarrow> (string \<times> string \<times> string) list" where
  "tokens b t =
     (let l = LocalTime b t; y = YearFromTime l; m = MonthFromTime l; d = DateFromTime l;
          w = WeekDay l
      in [(''YYYY'', int_string y, ''year-full''),
          (''YY'', slice_last2 (int_string y), ''year-short''),
          (''MMMM'', month_long m, ''month-long''),
          (''MMM'', month_short m, ''month-short''),
          (''MM'', padStart 2 (int_string (m + 1)), ''month-numeric''),
          (''M'', int_string (m + 1), ''month-numeric''),
          (''dddd'', weekday_long w, ''weekday-long''),
          (''ddd'', weekday_short w, ''weekday-short''),
          (''DD'', padStart 2 (int_string d), ''day-numeric''),
          (''D'', int_string d, ''day-numeric'')])"

text \<open>
  \<open>Object.keys(tokens).sort((a, b) => b.length - a.length)\<close>: the keys in the order
  they were written, sorted by falling length; the sort is stable.
\<close>

definition sortedTokens :: "(string \<times> string \<times> string) list \<Rightarrow> string list" where
  "sortedTokens tab = sort_key (\<lambda>k. - int (length k)) (map fst tab)"

text \<open>The span around a computed text.\<close>

definition wrapped :: "string \<Rightarrow> string \<Rightarrow> string" where
  \<open>wrapped cls v = ''<span class="'' @ cls @ ''">'' @ v @ ''</span>''\<close>


text \<open>
  \<open>formatted.replace(new RegExp('\\bTOKEN\\b', 'g'), wrapped)\<close>.  The codes hold no
  character that a regular expression reads specially, so the escaped code is the code;
  the replacement holds no \<open>$\<close>, so it is inserted as it is.

  The assertion \<open>\b\<close> holds between two neighbours of which exactly one is a word
  character; beyond either end of the string there is none.  The search runs from left
  to right, and after a match it goes on behind the match.  \<open>prev\<close> is the character
  before the position reached.
\<close>

definition word_opt :: "char option \<Rightarrow> bool" where
  "word_opt c = (case c of None \<Rightarrow> False | Some x \<Rightarrow> is_word x)"

definition boundary :: "char option \<Rightarrow> char option \<Rightarrow> bool" where
  "boundary l r = (word_opt l \<noteq> word_opt r)"

definition head_opt :: "string \<Rightarrow> char option" where
  "head_opt s = (case s of [] \<Rightarrow> None | c # _ \<Rightarrow> Some c)"

definition match_here :: "string \<Rightarrow> char option \<Rightarrow> string \<Rightarrow> bool" where
  "match_here tok prev s =
     (tok \<noteq> [] \<and> boundary prev (head_opt s) \<and> take (length tok) s = tok
      \<and> boundary (Some (last tok)) (head_opt (drop (length tok) s)))"

fun replace_from :: "string \<Rightarrow> string \<Rightarrow> char option \<Rightarrow> string \<Rightarrow> string" where
  "replace_from tok rep prev [] = []"
| "replace_from tok rep prev (c # cs) =
     (if match_here tok prev (c # cs)
      then rep @ replace_from tok rep (Some (last tok)) (drop (length tok - 1) cs)
      else c # replace_from tok rep (Some c) cs)"

definition replace_token :: "string \<Rightarrow> string \<Rightarrow> string \<Rightarrow> string" where
  "replace_token tok rep s = replace_from tok rep None s"

text \<open>
  The loop over the sorted codes.  A code of the list is a key of the table, so the
  lookup finds its entry.
\<close>

definition substitute_token ::
  "(string \<times> string \<times> string) list \<Rightarrow> string \<Rightarrow> string \<Rightarrow> string" where
  "substitute_token tab formatted tok =
     (case map_of tab tok of
        None \<Rightarrow> formatted
      | Some (v, cls) \<Rightarrow> replace_token tok (wrapped cls v) formatted)"

definition format_template :: "browser \<Rightarrow> int \<Rightarrow> string \<Rightarrow> string" where
  "format_template b t fmt =
     foldl (substitute_token (tokens b t)) fmt (sortedTokens (tokens b t))"

text \<open>The markup that \<open>formatDate\<close> assigns to \<open>innerHTML\<close>.\<close>

definition markup :: "browser \<Rightarrow> string \<Rightarrow> string \<Rightarrow> int \<Rightarrow> string" where
  \<open>markup b name fmt t =
     ''<span class="'' @ name @ ''">'' @ format_template b t fmt @ ''</span>''\<close>



section \<open>The annotator: \<open>preprocess-date.js\<close>\<close>

text \<open>
  \<open>document.querySelectorAll('time')\<close>: the identities of the elements named
  \<open>time\<close>, in tree order.
\<close>

definition time_elements :: "node \<Rightarrow> nat list" where
  "time_elements doc = map ident (filter (\<lambda>e. localName (name_of e) = ''time'') (elements doc))"

text \<open>A string or \<open>null\<close>/\<open>undefined\<close> as a condition: false when missing or empty.\<close>

definition truthy :: "string option \<Rightarrow> bool" where
  "truthy s = (case s of None \<Rightarrow> False | Some x \<Rightarrow> x \<noteq> [])"

text \<open>
  Lines 31 to 43: the date value of a time element.  \<open>None\<close> is the \<open>return\<close> of
  line 39, which ends the work on this element.
\<close>

definition resolve_dateValue :: "browser \<Rightarrow> node \<Rightarrow> string option" where
  "resolve_dateValue b timeEl =
     (let dateValue = getAttribute timeEl ''datetime'' in
      if truthy dateValue then dateValue
      else (let dateText = trim (textContent timeEl) in
            case new_Date b dateText of
              None \<Rightarrow> None
            | Some t \<Rightarrow> Some (split_T_first (toISOString t))))"

text \<open>
  Lines 46 to 53.  \<open>closest\<close> gives the nearest of the element and the elements
  above it that matches the selector, \<open>parentElement\<close> the element right above.
\<close>

definition closest :: "browser \<Rightarrow> string \<Rightarrow> nat \<Rightarrow> node \<Rightarrow> nat option" where
  "closest b sel r doc = find (sel_matches b sel doc) (ancestors r doc)"

definition resolve_parent :: "browser \<Rightarrow> string option \<Rightarrow> nat \<Rightarrow> node \<Rightarrow> nat option" where
  "resolve_parent b parentSelector r doc =
     (case parentSelector of
        None \<Rightarrow> parentElement r doc
      | Some sel \<Rightarrow> if sel \<noteq> [] then closest b sel r doc else parentElement r doc)"

text \<open>Lines 57 to 64: the four attributes, written in this order.\<close>

definition write_attributes :: "browser \<Rightarrow> nat \<Rightarrow> string \<Rightarrow> node \<Rightarrow> node" where
  "write_attributes b p dateValue doc =
     (let d1 = setAttribute p ''data-date'' dateValue doc;
          date = new_Date b dateValue;
          d2 = setAttribute p ''data-year'' (number_string (getFullYear b date)) d1;
          d3 = setAttribute p ''data-month''
                 (number_string (map_option (\<lambda>m. m + 1) (getMonth b date))) d2
      in setAttribute p ''data-day'' (number_string (getDate b date)) d3)"

text \<open>The body of the loop for the time element \<open>r\<close>, and the loop.\<close>

definition annotate :: "browser \<Rightarrow> string option \<Rightarrow> nat \<Rightarrow> node \<Rightarrow> node" where
  "annotate b parentSelector r doc =
     (case lookup r doc of
        None \<Rightarrow> doc
      | Some timeEl \<Rightarrow>
          (case resolve_dateValue b timeEl of
             None \<Rightarrow> doc
           | Some dateValue \<Rightarrow>
               (case resolve_parent b parentSelector r doc of
                  None \<Rightarrow> doc
                | Some p \<Rightarrow> write_attributes b p dateValue doc)))"

definition addDateDataAttributes :: "browser \<Rightarrow> string option \<Rightarrow> node \<Rightarrow> node" where
  "addDateDataAttributes b parentSelector doc =
     foldl (\<lambda>d r. annotate b parentSelector r d) doc (time_elements doc)"

text \<open>
  \<open>window.dateDataConfig\<close> is missing (\<open>None\<close>) or an object whose
  \<open>parentSelector\<close> is missing or a string.
\<close>

definition applyDateDataAttributes :: "browser \<Rightarrow> string option option \<Rightarrow> node \<Rightarrow> node" where
  "applyDateDataAttributes b dateDataConfig doc =
     (case dateDataConfig of
        Some (Some sel) \<Rightarrow>
          if sel \<noteq> [] then addDateDataAttributes b (Some sel) doc
          else addDateDataAttributes b None doc
      | _ \<Rightarrow> addDateDataAttributes b None doc)"


section \<open>The formatter: \<open>formatDate\<close> and \<open>applyAllDateFormats\<close>\<close>

text \<open>
  Assigning \<open>innerHTML\<close> takes the children of an element out of the document; a list
  of elements found before still holds them.  So the state of the formatter is the
  document together with the subtrees taken out of it.
\<close>

record page =
  document :: node
  detached :: "node list"

record format_config =
  selector :: string
  name :: string
  format :: string

definition all_elements :: "page \<Rightarrow> node list" where
  "all_elements pg = elements (document pg) @ concat (map elements (detached pg))"

definition lookup_page :: "nat \<Rightarrow> page \<Rightarrow> node option" where
  "lookup_page r pg = find (\<lambda>e. ident e = r) (all_elements pg)"

definition fresh :: "page \<Rightarrow> nat" where
  "fresh pg = Suc (foldr max (map ident (all_elements pg)) 0)"

definition is_element :: "node \<Rightarrow> bool" where
  "is_element n = (case n of Text _ \<Rightarrow> False | Elem _ _ _ _ \<Rightarrow> True)"

fun set_children :: "nat \<Rightarrow> node list \<Rightarrow> node \<Rightarrow> node" where
  "set_children r new (Text s) = Text s"
| "set_children r new (Elem i n a ks) =
     (if i = r then Elem i n a new else Elem i n a (map (set_children r new) ks))"

definition set_attribute_page :: "nat \<Rightarrow> string \<Rightarrow> string \<Rightarrow> page \<Rightarrow> page" where
  "set_attribute_page r k v pg =
     \<lparr>document = setAttribute r k v (document pg),
      detached = map (setAttribute r k v) (detached pg)\<rparr>"

text \<open>
  \<open>el.innerHTML = html\<close>: the children of \<open>el\<close> become the nodes parsed from the
  markup; the elements among the old children are out of the document from then on.
\<close>

definition set_innerHTML :: "browser \<Rightarrow> nat \<Rightarrow> string \<Rightarrow> page \<Rightarrow> page" where
  "set_innerHTML b r html pg =
     (case lookup_page r pg of
        None \<Rightarrow> pg
      | Some el \<Rightarrow>
          (let new = parse_html b html (fresh pg) in
           \<lparr>document = set_children r new (document pg),
            detached = map (set_children r new) (detached pg)
                         @ filter is_element (childNodes el)\<rparr>))"

text \<open>
  \<open>document.querySelectorAll(selector)\<close>: the elements of the document that match,
  in tree order.
\<close>

definition querySelectorAll :: "browser \<Rightarrow> string \<Rightarrow> node \<Rightarrow> nat list" where
  "querySelectorAll b sel doc =
     map ident (filter (\<lambda>e. sel_matches b sel doc (ident e)) (elements doc))"

text \<open>The body of the loop of \<open>formatDate\<close> for the element \<open>r\<close> (lines 58 to 114).\<close>

definition format_element :: "browser \<Rightarrow> format_config \<Rightarrow> nat \<Rightarrow> page \<Rightarrow> page" where
  "format_element b cfg r pg =
     (case lookup_page r pg of
        None \<Rightarrow> pg
      | Some el \<Rightarrow>
          (let dateText = trim (textContent el) in
           case new_Date b dateText of
             None \<Rightarrow> pg
           | Some t \<Rightarrow>
               (let pg1 = (if tagName b el = ''TIME''
                           then set_attribute_page r ''datetime''
                                  (split_T_first (toISOString t)) pg
                           else pg)
                in set_innerHTML b r (markup b (name cfg) (format cfg) t) pg1)))"

definition formatDate :: "browser \<Rightarrow> format_config \<Rightarrow> page \<Rightarrow> page" where
  "formatDate b cfg pg =
     foldl (\<lambda>p r. format_element b cfg r p) pg
       (querySelectorAll b (selector cfg) (document pg))"

text \<open>
  \<open>window.dateFormats\<close>: not set, a value that is not an array (which may count as
  true or as false in a condition), or an array of configurations.
\<close>

datatype dateFormats_value =
  Undefined
| No_array bool
| Array "format_config list"

definition to_boolean :: "dateFormats_value \<Rightarrow> bool" where
  "to_boolean v = (case v of Undefined \<Rightarrow> False | No_array c \<Rightarrow> c | Array _ \<Rightarrow> True)"

definition isArray :: "dateFormats_value \<Rightarrow> bool" where
  "isArray v = (case v of Array _ \<Rightarrow> True | _ \<Rightarrow> False)"

definition applyAllDateFormats :: "browser \<Rightarrow> dateFormats_value \<Rightarrow> page \<Rightarrow> page" where
  "applyAllDateFormats b dateFormats pg =
     (if to_boolean dateFormats \<and> isArray dateFormats
      then (case dateFormats of
              Array cs \<Rightarrow> foldl (\<lambda>p config. formatDate b config p) pg cs
            | _ \<Rightarrow> pg)
      else pg)"



section \<open>What the claims speak of\<close>

text \<open>
  A template read in one pass: its maximal runs of word characters, and every other
  character on its own.  \<open>one_pass\<close> replaces each piece that is a code of the table
  by the span of that code and leaves every other piece as it is.
\<close>

function pieces :: "string \<Rightarrow> string list" where
  "pieces [] = []"
| "pieces (c # cs) =
     (if is_word c then (c # takeWhile is_word cs) # pieces (dropWhile is_word cs)
      else [c] # pieces cs)"
  by pat_completeness auto
termination
  by (relation "measure length") (auto simp: less_Suc_eq_le length_dropWhile_le)

definition one_pass :: "(string \<times> string \<times> string) list \<Rightarrow> string \<Rightarrow> string" where
  "one_pass tab s =
     concat (map (\<lambda>p. case map_of tab p of None \<Rightarrow> p | Some (v, cls) \<Rightarrow> wrapped cls v)
       (pieces s))"

text \<open>\<open>c\<close> is a child element of \<open>p\<close> in the tree.\<close>

definition child_of :: "node \<Rightarrow> nat \<Rightarrow> nat \<Rightarrow> bool" where
  "child_of doc c p =
     (\<exists>e\<in>set (elements doc). ident e = p \<and>
        (\<exists>k\<in>set (childNodes e). is_element k \<and> ident k = c))"

text \<open>
  A tree without the attributes and the content of the element \<open>r\<close>: what is left is
  everything that a change to \<open>r\<close> alone does not touch.
\<close>

fun outside :: "nat \<Rightarrow> node \<Rightarrow> node" where
  "outside r (Text s) = Text s"
| "outside r (Elem i n a ks) =
     (if i = r then Elem i n [] [] else Elem i n a (map (outside r) ks))"

text \<open>
  The attributes the annotator writes, and a selector whose matches do not depend on
  them.
\<close>

definition annotation_keys :: "string list" where
  "annotation_keys = [''data-date'', ''data-year'', ''data-month'', ''data-day'']"

definition ignores_annotations :: "browser \<Rightarrow> string \<Rightarrow> bool" where
  "ignores_annotations b sel =
     (\<forall>doc p k v. k \<in> set annotation_keys \<longrightarrow>
        sel_matches b sel (setAttribute p k v doc) = sel_matches b sel doc)"


text \<open>
  The selector that is configured, if one is, matches the same elements whatever the
  four attributes of the annotator hold.
\<close>

definition selector_ignores_annotations :: "browser \<Rightarrow> string option \<Rightarrow> bool" where
  "selector_ignores_annotations b parentSelector =
     (case parentSelector of None \<Rightarrow> True | Some sel \<Rightarrow> sel = [] \<or> ignores_annotations b sel)"

section \<open>Notions used in the proofs\<close>

definition all_word :: "string \<Rightarrow> bool" where
  "all_word w = (w \<noteq> [] \<and> (\<forall>c\<in>set w. is_word c))"

definition starts_nonword :: "string \<Rightarrow> bool" where
  "starts_nonword s = (case s of [] \<Rightarrow> True | c # _ \<Rightarrow> \<not> is_word c)"

definition ends_nonword :: "string \<Rightarrow> bool" where
  "ends_nonword s = (s = [] \<or> \<not> is_word (last s))"

definition bracketed :: "string \<Rightarrow> bool" where
  "bracketed x = (x \<noteq> [] \<and> \<not> is_word (hd x) \<and> \<not> is_word (last x))"

text \<open>One replacement, on the pieces; and the pieces replaced after some of the codes.\<close>

definition subst1 :: "string \<Rightarrow> string \<Rightarrow> string \<Rightarrow> string" where
  "subst1 tok rep s = concat (map (\<lambda>p. if p = tok then rep else p) (pieces s))"

definition mark :: "(string \<times> string \<times> string) list \<Rightarrow> string list \<Rightarrow> string \<Rightarrow> string" where
  "mark tab D p =
     (if p \<in> set D then (case map_of tab p of None \<Rightarrow> p | Some (v, cls) \<Rightarrow> wrapped cls v)
      else p)"

definition token_codes :: "string list" where
  "token_codes =
     [''YYYY'', ''YY'', ''MMMM'', ''MMM'', ''MM'', ''M'', ''dddd'', ''ddd'', ''DD'', ''D'']"

definition code_free :: "string \<Rightarrow> bool" where
  "code_free x = (\<forall>k\<in>set token_codes. k \<notin> set (pieces x))"

text \<open>
  What the annotator does for one time element: nothing, or the four attributes for a
  date value on a target.
\<close>

definition plan :: "browser \<Rightarrow> string option \<Rightarrow> nat \<Rightarrow> node \<Rightarrow> (nat \<times> string) option" where
  "plan b parentSelector r doc =
     (case lookup r doc of
        None \<Rightarrow> None
      | Some timeEl \<Rightarrow>
          (case resolve_dateValue b timeEl of
             None \<Rightarrow> None
           | Some dateValue \<Rightarrow>
               (case resolve_parent b parentSelector r doc of
                  None \<Rightarrow> None
                | Some p \<Rightarrow> Some (p, dateValue))))"

definition apply_plan :: "browser \<Rightarrow> (nat \<times> string) option \<Rightarrow> node \<Rightarrow> node" where
  "apply_plan b pl doc =
     (case pl of None \<Rightarrow> doc | Some (p, dateValue) \<Rightarrow> write_attributes b p dateValue doc)"

definition run_plans :: "browser \<Rightarrow> (nat \<times> string) option list \<Rightarrow> node \<Rightarrow> node" where
  "run_plans b pls doc = foldl (\<lambda>d pl. apply_plan b pl d) doc pls"

definition four_updates ::
  "browser \<Rightarrow> string \<Rightarrow> (string \<times> string) list \<Rightarrow> (string \<times> string) list" where
  "four_updates b dateValue al =
     AList.update ''data-day'' (number_string (getDate b (new_Date b dateValue)))
       (AList.update ''data-month''
          (number_string (map_option (\<lambda>m. m + 1) (getMonth b (new_Date b dateValue))))
          (AList.update ''data-year'' (number_string (getFullYear b (new_Date b dateValue)))
             (AList.update ''data-date'' dateValue al)))"


section \<open>Sample browsers and pages\<close>

text \<open>
  A fragment parser for the samples.  It reads text, opening tags with at most one
  attribute (\<open><span class="x">\<close>) and closing tags, which is the markup the
  formatter writes; identities are given in the order of the opening tags, and every
  element is an element of HTML.
\<close>

datatype scan_mode = In_text string | In_tag string

type_synonym open_element = "nat \<times> string \<times> (string \<times> string) list \<times> node list"

definition add_text :: "string \<Rightarrow> open_element list \<Rightarrow> open_element list" where
  "add_text buf st =
     (case st of
        (i, n, a, ks) # rest \<Rightarrow> if buf = [] then st else (i, n, a, ks @ [Text buf]) # rest
      | [] \<Rightarrow> [])"

definition close_top :: "open_element list \<Rightarrow> open_element list" where
  "close_top st =
     (case st of
        (i, n, a, ks) # (i', n', a', ks') # rest \<Rightarrow> (i', n', a', ks' @ [Elem i (html_name n) a ks]) # rest
      | _ \<Rightarrow> st)"

definition tag_attrs :: "string \<Rightarrow> (string \<times> string) list" where
  "tag_attrs s =
     (let s1 = dropWhile (\<lambda>c. c = CHR '' '') s
      in if s1 = [] then []
         else [(takeWhile (\<lambda>c. c \<noteq> CHR ''='') s1,
                takeWhile (\<lambda>c. c \<noteq> CHR 0x22)
                  (drop 2 (dropWhile (\<lambda>c. c \<noteq> CHR ''='') s1)))])"

fun scan :: "string \<Rightarrow> scan_mode \<Rightarrow> open_element list \<Rightarrow> nat \<Rightarrow> open_element list" where
  "scan [] (In_text buf) st nxt = add_text buf st"
| "scan [] (In_tag buf) st nxt = st"
| "scan (c # cs) (In_text buf) st nxt =
     (if c = CHR ''<'' then scan cs (In_tag []) (add_text buf st) nxt
      else scan cs (In_text (buf @ [c])) st nxt)"
| "scan (c # cs) (In_tag buf) st nxt =
     (if c \<noteq> CHR ''>'' then scan cs (In_tag (buf @ [c])) st nxt
      else if take 1 buf = ''/'' then scan cs (In_text []) (close_top st) nxt
      else scan cs (In_text [])
             ((nxt, takeWhile (\<lambda>c. c \<noteq> CHR '' '') buf,
               tag_attrs (dropWhile (\<lambda>c. c \<noteq> CHR '' '') buf), []) # st) (Suc nxt))"

fun close_all :: "open_element list \<Rightarrow> node list" where
  "close_all [] = []"
| "close_all [(i, n, a, ks)] = ks"
| "close_all ((i, n, a, ks) # (i', n', a', ks') # rest) =
     close_all ((i', n', a', ks' @ [Elem i (html_name n) a ks]) # rest)"

definition sample_fragment :: "string \<Rightarrow> nat \<Rightarrow> node list" where
  "sample_fragment s nxt = close_all (scan s (In_text []) [(0, [], [], [])] nxt)"

text \<open>
  A browser in a time zone with a fixed offset from UTC (in milliseconds), showing an
  HTML document.  Of the strings outside the date-only format it reads
  \<open>December 9, 2025\<close> and \<open>Tuesday, December 9, 2025\<close>, as midnight of that day in
  local time, and no other; of the selectors it knows \<open>time\<close>, \<open>.post-date\<close> (an
  element of that class) and \<open>:not([data-date])\<close> (an element without the attribute
  \<open>data-date\<close>).
\<close>

definition sample_matches :: "string \<Rightarrow> node \<Rightarrow> nat \<Rightarrow> bool" where
  "sample_matches sel doc r =
     (case lookup r doc of
        None \<Rightarrow> False
      | Some e \<Rightarrow>
          if sel = ''time'' then localName (name_of e) = ''time''
          else if sel = ''.post-date'' then getAttribute e ''class'' = Some ''post-date''
          else if sel = '':not([data-date])'' then getAttribute e ''data-date'' = None
          else False)"

definition sample_parse :: "int \<Rightarrow> string \<Rightarrow> int option" where
  "sample_parse offset s =
     (if s = ''December 9, 2025'' \<or> s = ''Tuesday, December 9, 2025''
      then Some (1765238400000 - offset) else None)"

definition browser_at :: "int \<Rightarrow> browser" where
  "browser_at offset =
     \<lparr>tza = (\<lambda>t. offset), parse_other = sample_parse offset,
      sel_matches = sample_matches, parse_html = sample_fragment, html_document = True\<rparr>"

text \<open>\<open><div class="post-date"><time datetime="...">December 9, 2025</time></div>\<close>\<close>

definition post :: "(string \<times> string) list \<Rightarrow> string \<Rightarrow> node" where
  "post time_attrs txt =
     Elem 10 (html_name ''div'') [(''class'', ''post-date'')] [Elem 11 (html_name ''time'') time_attrs [Text txt]]"



text \<open>The page with the time element without attributes, and a configuration.\<close>

definition sample_page :: page where
  "sample_page = \<lparr>document = post [] ''December 9, 2025'', detached = []\<rparr>"

definition sample_config :: format_config where
  "sample_config =
     \<lparr>selector = ''time'', name = ''pretty-date'', format = ''dddd, MMMM D, YYYY''\<rparr>"

text \<open>A second configuration for the same elements.\<close>

definition iso_config :: format_config where
  "iso_config = \<lparr>selector = ''time'', name = ''iso-date'', format = ''YYYY-MM-DD''\<rparr>"

section \<open>Facts about the platform model\<close>

lemma html_name_sel [simp]:
  "namespaceURI (html_name n) = Some html_namespace" "prefix (html_name n) = None"
  "localName (html_name n) = n" "qualifiedName (html_name n) = n"
  by (simp_all add: html_name_def qualifiedName_def)

lemma html_name_eq [simp]: "html_name n = html_name m \<longleftrightarrow> n = m"
  by (simp add: html_name_def)

subsection \<open>Numbers as strings\<close>

lemma dec_nat_digits: "dec_nat n \<noteq> [] \<and> set (dec_nat n) \<subseteq> set ''0123456789''"
proof (induction n rule: dec_nat.induct)
  case (1 n)
  have d: "digit n \<in> set ''0123456789''"
    unfolding digit_def by (rule nth_mem) simp
  show ?case
  proof (cases "n < 10")
    case True
    then show ?thesis using d by (subst dec_nat.simps, subst dec_nat.simps) simp
  next
    case False
    then show ?thesis using d 1 by (subst dec_nat.simps, subst dec_nat.simps) simp
  qed
qed

lemma padStart_digits:
  "set (padStart k (dec_nat n)) \<subseteq> set ''0123456789'' \<and> padStart k (dec_nat n) \<noteq> []"
  using dec_nat_digits [of n] by (auto simp: padStart_def)

lemma iso_year_hd: "iso_year y \<noteq> [] \<and> hd (iso_year y) \<noteq> CHR ''T''"
proof (cases "0 \<le> y \<and> y \<le> 9999")
  case True
  have "hd (padStart 4 (dec_nat (nat y))) \<in> set (padStart 4 (dec_nat (nat y)))"
    using padStart_digits by (intro hd_in_set) simp
  then have "hd (padStart 4 (dec_nat (nat y))) \<in> set ''0123456789''"
    using padStart_digits by blast
  then have "hd (padStart 4 (dec_nat (nat y))) \<noteq> CHR ''T''"
    by auto
  then show ?thesis using True padStart_digits by (simp add: iso_year_def)
next
  case False
  then show ?thesis by (simp add: iso_year_def)
qed

lemma iso_date_nonempty: "split_T_first (toISOString t) \<noteq> []"
proof -
  obtain c cs where "iso_year (YearFromTime t) = c # cs" "c \<noteq> CHR ''T''"
    using iso_year_hd [of "YearFromTime t"] by (cases "iso_year (YearFromTime t)") auto
  then show ?thesis by (simp add: split_T_first_def toISOString_def)
qed

lemma int_string_samples:
  "int_string 2025 = ''2025''" "int_string 12 = ''12''" "int_string 9 = ''9''"
  "int_string 8 = ''8''"
  by (simp_all add: int_string_def dec_nat.simps digit_def)

subsection \<open>The year of a day\<close>

text \<open>
  \<open>YearFromDay\<close> gives the year that ECMA-262 defines: the one whose first day is
  not after the day and whose next year begins after it; there is one such year only,
  as the first days of the years increase.
\<close>

lemma div_bounds: "0 < n \<Longrightarrow> n * (a div n) \<le> a \<and> a - n < n * (a div n)" for a n :: int
  using mult_div_mod_eq [of n a] pos_mod_sign [of n a] pos_mod_bound [of n a] by linarith

lemma DayFromYear_bounds:
  "146097 * y - 287811596 \<le> 400 * DayFromYear y"
  "400 * DayFromYear y \<le> 146097 * y - 287810501"
proof -
  define q1 q2 q3 where "q1 = (y - 1969) div 4" and "q2 = (y - 1901) div 100"
    and "q3 = (y - 1601) div 400"
  have b: "4 * q1 \<le> y - 1969" "y - 1969 - 4 < 4 * q1"
    "100 * q2 \<le> y - 1901" "y - 1901 - 100 < 100 * q2"
    "400 * q3 \<le> y - 1601" "y - 1601 - 400 < 400 * q3"
    using div_bounds [of 4 "y - 1969"] div_bounds [of 100 "y - 1901"]
      div_bounds [of 400 "y - 1601"]
    by (simp_all add: q1_def q2_def q3_def)
  have d: "400 * DayFromYear y = 146000 * y - 287620000 + 400 * q1 - 400 * q2 + 400 * q3"
    by (simp add: DayFromYear_def q1_def q2_def q3_def)
  show "146097 * y - 287811596 \<le> 400 * DayFromYear y"
    unfolding d using b by linarith
  show "400 * DayFromYear y \<le> 146097 * y - 287810501"
    unfolding d using b by linarith
qed

lemma YearFromDay_bounds:
  "DayFromYear (YearFromDay d) \<le> d \<and> d < DayFromYear (YearFromDay d + 1)"
proof -
  define y where "y = (d * 400) div 146097 + 1970"
  have e: "146097 * y - 287811090 \<le> 400 * d" "400 * d - 146097 < 146097 * y - 287811090"
    using div_bounds [of 146097 "d * 400"] by (simp_all add: y_def algebra_simps)
  have "400 * DayFromYear (y - 1) \<le> 146097 * y - 287956598"
    using DayFromYear_bounds(2) [of "y - 1"] by (simp add: algebra_simps)
  then have lo: "DayFromYear (y - 1) \<le> d" using e by linarith
  have "146097 * y - 287519402 \<le> 400 * DayFromYear (y + 2)"
    using DayFromYear_bounds(1) [of "y + 2"] by (simp add: algebra_simps)
  then have hi: "d < DayFromYear (y + 2)" using e by linarith
  have r: "YearFromDay d =
      (if d < DayFromYear y then y - 1 else if DayFromYear (y + 1) \<le> d then y + 1 else y)"
    by (simp add: YearFromDay_def Let_def y_def)
  have s: "y - 1 + 1 = y" "y + 1 + 1 = y + 2" by simp_all
  show ?thesis
    unfolding r using lo hi by (simp add: s)
qed

lemma DayFromYear_mono: "DayFromYear y < DayFromYear (y + 1)"
proof -
  have 1: "(y - 1969) div 4 \<le> (y + 1 - 1969) div 4" by (intro zdiv_mono1) simp_all
  have 3: "(y - 1601) div 400 \<le> (y + 1 - 1601) div 400" by (intro zdiv_mono1) simp_all
  have "(y + 1 - 1901) div 100 \<le> (y - 1901 + 100) div 100" by (intro zdiv_mono1) simp_all
  then have 2: "(y + 1 - 1901) div 100 \<le> (y - 1901) div 100 + 1" by simp
  define q1 q2 q3 q1' q2' q3' where "q1 = (y - 1969) div 4" and "q2 = (y - 1901) div 100"
    and "q3 = (y - 1601) div 400" and "q1' = (y + 1 - 1969) div 4"
    and "q2' = (y + 1 - 1901) div 100" and "q3' = (y + 1 - 1601) div 400"
  have q: "q1 \<le> q1'" "q2' \<le> q2 + 1" "q3 \<le> q3'"
    using 1 2 3 by (simp_all add: q1_def q2_def q3_def q1'_def q2'_def q3'_def)
  have e: "365 * (y + 1 - 1970) = 365 * (y - 1970) + 365" by simp
  have "365 * (y - 1970) + q1 - q2 + q3 < 365 * (y + 1 - 1970) + q1' - q2' + q3'"
    unfolding e using q by linarith
  then show ?thesis
    unfolding DayFromYear_def q1_def q2_def q3_def q1'_def q2'_def q3'_def .
qed

subsection \<open>The ninth of December 2025\<close>

text \<open>
  1765238400000 is 2025-12-09T00:00:00Z, a Tuesday; 1765220400000 is five hours
  earlier, on the eighth.
\<close>

lemma new_Date_2025_12_09: "new_Date b ''2025-12-09'' = Some 1765238400000"
  by (simp add: new_Date_def parse_date_only_def is_digit_def digits_val_def digit_val_def
      DaysInMonth_def DaysInYear_def MakeDate_def MakeDay_def DayFromYear_def
      DaysBeforeMonth_def msPerDay_def)

lemma new_Date_TBD: "new_Date (browser_at offset) ''TBD'' = None"
  by (simp add: new_Date_def parse_date_only_def browser_at_def sample_parse_def)

lemma new_Date_sample:
  "new_Date (browser_at offset) ''December 9, 2025'' = Some (1765238400000 - offset)"
  by (simp add: new_Date_def parse_date_only_def browser_at_def sample_parse_def)

lemma new_Date_sample_weekday:
  "new_Date (browser_at offset) ''Tuesday, December 9, 2025'' = Some (1765238400000 - offset)"
  by (simp add: new_Date_def parse_date_only_def browser_at_def sample_parse_def)

lemma LocalTime_browser_at: "LocalTime (browser_at offset) t = t + offset"
  by (simp add: LocalTime_def browser_at_def)

lemma date_1765238400000:
  "YearFromTime 1765238400000 = 2025" "MonthFromTime 1765238400000 = 11"
  "DateFromTime 1765238400000 = 9" "WeekDay 1765238400000 = 2"
proof -
  show y: "YearFromTime 1765238400000 = 2025"
    by (simp add: YearFromTime_def YearFromDay_def Day_def msPerDay_def DayFromYear_def)
  show m: "MonthFromTime 1765238400000 = 11"
    by (simp add: MonthFromTime_def DayWithinYear_def InLeapYear_def DaysInYear_def y
        Day_def msPerDay_def DayFromYear_def)
  show "DateFromTime 1765238400000 = 9"
    by (simp add: DateFromTime_def m DayWithinYear_def InLeapYear_def DaysInYear_def y
        Day_def msPerDay_def DayFromYear_def)
  show "WeekDay 1765238400000 = 2"
    by (simp add: WeekDay_def Day_def msPerDay_def)
qed

lemma date_1765220400000:
  "YearFromTime 1765220400000 = 2025" "MonthFromTime 1765220400000 = 11"
  "DateFromTime 1765220400000 = 8"
proof -
  show y: "YearFromTime 1765220400000 = 2025"
    by (simp add: YearFromTime_def YearFromDay_def Day_def msPerDay_def DayFromYear_def)
  show m: "MonthFromTime 1765220400000 = 11"
    by (simp add: MonthFromTime_def DayWithinYear_def InLeapYear_def DaysInYear_def y
        Day_def msPerDay_def DayFromYear_def)
  show "DateFromTime 1765220400000 = 8"
    by (simp add: DateFromTime_def m DayWithinYear_def InLeapYear_def DaysInYear_def y
        Day_def msPerDay_def DayFromYear_def)
qed

lemma toISOString_1765238400000:
  "split_T_first (toISOString 1765238400000) = ''2025-12-09''"
  by (simp add: toISOString_def date_1765238400000 iso_year_def pad_int_def padStart_def
      dec_nat.simps digit_def split_T_first_def)

lemma date_1765234800000:
  "YearFromTime 1765234800000 = 2025" "MonthFromTime 1765234800000 = 11"
  "DateFromTime 1765234800000 = 8"
proof -
  show y: "YearFromTime 1765234800000 = 2025"
    by (simp add: YearFromTime_def YearFromDay_def Day_def msPerDay_def DayFromYear_def)
  show m: "MonthFromTime 1765234800000 = 11"
    by (simp add: MonthFromTime_def DayWithinYear_def InLeapYear_def DaysInYear_def y
        Day_def msPerDay_def DayFromYear_def)
  show "DateFromTime 1765234800000 = 8"
    by (simp add: DateFromTime_def m DayWithinYear_def InLeapYear_def DaysInYear_def y
        Day_def msPerDay_def DayFromYear_def)
qed

lemma toISOString_1765234800000:
  "split_T_first (toISOString 1765234800000) = ''2025-12-08''"
  by (simp add: toISOString_def date_1765234800000 iso_year_def pad_int_def padStart_def
      dec_nat.simps digit_def split_T_first_def)


section \<open>Whole-word replacement, in one pass\<close>

text \<open>
  The replacement by a regular expression \<open>\bCODE\b\<close> replaces exactly the pieces
  of the string that are the code.  A span put in starts and ends with a character
  that is no word character, so the pieces around it stay what they were; and no piece
  of a span is a code.  So the loop over the codes, in whatever order, is the
  replacement in one pass.
\<close>

lemma concat_pieces: "concat (pieces s) = s"
  by (induction s rule: pieces.induct) auto

lemma pieces_run: "all_word w \<Longrightarrow> starts_nonword rest \<Longrightarrow> pieces (w @ rest) = w # pieces rest"
proof -
  assume w: "all_word w" and r: "starts_nonword rest"
  then obtain c cs where wc: "w = c # cs" by (cases w) (auto simp: all_word_def)
  have tw: "takeWhile is_word (cs @ rest) = cs"
    using w r wc by (cases rest) (auto simp: all_word_def starts_nonword_def takeWhile_append)
  have dw: "dropWhile is_word (cs @ rest) = rest"
    using w r wc by (cases rest) (auto simp: all_word_def starts_nonword_def dropWhile_append)
  show ?thesis using w wc tw dw by (simp add: all_word_def)
qed

lemma pieces_nonword: "\<not> is_word c \<Longrightarrow> pieces (c # cs) = [c] # pieces cs"
  by simp

lemma match_here_iff:
  assumes "all_word tok"
  shows "match_here tok prev s \<longleftrightarrow>
         (\<not> word_opt prev \<and> (\<exists>rest. s = tok @ rest \<and> starts_nonword rest))"
proof -
  have hw: "is_word (hd tok)" "is_word (last tok)" "tok \<noteq> []"
    using assms by (auto simp: all_word_def)
  show ?thesis
  proof
    assume m: "match_here tok prev s"
    then have tk: "take (length tok) s = tok" by (simp add: match_here_def)
    then have s: "s = tok @ drop (length tok) s" by (metis append_take_drop_id)
    then have "head_opt s = Some (hd tok)" using hw
      by (cases tok) (auto simp: head_opt_def split: list.splits)
    with m hw have "\<not> word_opt prev" by (auto simp: match_here_def boundary_def word_opt_def)
    moreover have "starts_nonword (drop (length tok) s)"
      using m hw by (auto simp: match_here_def boundary_def word_opt_def head_opt_def starts_nonword_def split: list.splits)
    ultimately show "\<not> word_opt prev \<and> (\<exists>rest. s = tok @ rest \<and> starts_nonword rest)"
      using s by blast
  next
    assume "\<not> word_opt prev \<and> (\<exists>rest. s = tok @ rest \<and> starts_nonword rest)"
    then obtain rest where p: "\<not> word_opt prev" and s: "s = tok @ rest" and r: "starts_nonword rest" by blast
    have "head_opt s = Some (hd tok)" using hw s
      by (cases tok) (auto simp: head_opt_def split: list.splits)
    then show "match_here tok prev s"
      using p s r hw by (auto simp: match_here_def boundary_def word_opt_def head_opt_def starts_nonword_def split: list.splits)
  qed
qed

lemma subst1_nonword: "\<not> is_word c \<Longrightarrow> all_word tok \<Longrightarrow> subst1 tok rep (c # cs) = c # subst1 tok rep cs"
  by (auto simp: subst1_def all_word_def)

lemma subst1_run:
  "all_word w \<Longrightarrow> starts_nonword rest \<Longrightarrow>
   subst1 tok rep (w @ rest) = (if w = tok then rep else w) @ subst1 tok rep rest"
  by (simp add: subst1_def pieces_run)

lemma starts_nonword_dropWhile: "starts_nonword (dropWhile is_word s)"
  by (induction s) (auto simp: starts_nonword_def)

lemma replace_from_pieces:
  assumes tok: "all_word tok"
  shows "replace_from tok rep prev s =
           (if word_opt prev then takeWhile is_word s @ subst1 tok rep (dropWhile is_word s)
            else subst1 tok rep s)"
proof (induction "length s" arbitrary: s prev rule: less_induct)
  case less
  show ?case
  proof (cases s)
    case Nil
    then show ?thesis by (simp add: subst1_def)
  next
    case (Cons c cs)
    have lt: "is_word (last tok)" "tok \<noteq> []" using tok by (auto simp: all_word_def)
    show ?thesis
    proof (cases "match_here tok prev s")
      case True
      then obtain rest where p: "\<not> word_opt prev" and s: "s = tok @ rest" and r: "starts_nonword rest"
        using match_here_iff [OF tok] by blast
      have d: "drop (length tok - 1) cs = rest"
        using s Cons lt by (cases tok) auto
      have len: "length rest < length s" using s lt by simp
      have tw: "takeWhile is_word rest = []" "dropWhile is_word rest = rest"
        using r by (cases rest; simp add: starts_nonword_def)+
      have "replace_from tok rep prev s = rep @ replace_from tok rep (Some (last tok)) rest"
        using True Cons d by simp
      also have "\<dots> = rep @ subst1 tok rep rest"
        using less [OF len, of "Some (last tok)"] lt tw by (simp add: word_opt_def)
      also have "\<dots> = subst1 tok rep s"
        using s subst1_run [OF tok r, of tok rep] by simp
      finally show ?thesis using p by simp
    next
      case False
      have step: "replace_from tok rep prev s = c # replace_from tok rep (Some c) cs"
        using False Cons by simp
      have len: "length cs < length s" using Cons by simp
      show ?thesis
      proof (cases "is_word c")
        case cw: True
        have rec: "replace_from tok rep (Some c) cs =
            takeWhile is_word cs @ subst1 tok rep (dropWhile is_word cs)"
          using less [OF len, of "Some c"] cw by (simp add: word_opt_def)
        show ?thesis
        proof (cases "word_opt prev")
          case True
          then show ?thesis using step rec cw Cons by simp
        next
          case np: False
          let ?w = "c # takeWhile is_word cs"
          let ?r = "dropWhile is_word cs"
          have w: "all_word ?w" using cw by (auto simp: all_word_def dest: set_takeWhileD)
          have r: "starts_nonword ?r" by (rule starts_nonword_dropWhile)
          have s: "s = ?w @ ?r" using Cons by simp
          have "?w \<noteq> tok"
          proof
            assume "?w = tok"
            then have "match_here tok prev s"
              using match_here_iff [OF tok, of prev s] np s r by auto
            with False show False by simp
          qed
          then have "subst1 tok rep s = ?w @ subst1 tok rep ?r"
            using subst1_run [OF w r, of tok rep] s by simp
          then show ?thesis using step rec np by simp
        qed
      next
        case cn: False
        have rec: "replace_from tok rep (Some c) cs = subst1 tok rep cs"
          using less [OF len, of "Some c"] cn by (simp add: word_opt_def)
        show ?thesis using step rec cn Cons subst1_nonword [OF cn tok] by simp
      qed
    qed
  qed
qed

lemma replace_token_pieces: "all_word tok \<Longrightarrow> replace_token tok rep s = subst1 tok rep s"
  by (simp add: replace_token_def replace_from_pieces word_opt_def)

lemma pieces_append:
  "ends_nonword xs \<or> starts_nonword ys \<Longrightarrow> pieces (xs @ ys) = pieces xs @ pieces ys"
proof (induction xs rule: pieces.induct)
  case 1
  then show ?case by simp
next
  case (2 c cs)
  show ?case
  proof (cases "is_word c")
    case False
    have "ends_nonword cs \<or> starts_nonword ys"
      using 2(3) by (cases cs) (auto simp: ends_nonword_def)
    then show ?thesis using False 2(2) by simp
  next
    case True
    show ?thesis
    proof (cases "\<forall>x\<in>set cs. is_word x")
      case all: True
      have "last (c # cs) \<in> set (c # cs)" by (rule last_in_set) simp
      then have "is_word (last (c # cs))" using True all by auto
      then have ys: "starts_nonword ys" using 2(3) unfolding ends_nonword_def by blast
      have a: "takeWhile is_word (cs @ ys) = cs" "dropWhile is_word (cs @ ys) = ys"
        using all ys by (cases ys; auto simp: starts_nonword_def takeWhile_append dropWhile_append)+
      have b: "takeWhile is_word cs = cs" "dropWhile is_word cs = []"
        using all by auto
      show ?thesis using True by (simp add: a b)
    next
      case some: False
      then have tw: "takeWhile is_word (cs @ ys) = takeWhile is_word cs"
        and dw: "dropWhile is_word (cs @ ys) = dropWhile is_word cs @ ys"
        by (auto simp: takeWhile_append dropWhile_append)
      have ne: "dropWhile is_word cs \<noteq> []" using some by (simp add: dropWhile_eq_Nil_conv)
      then have "last (dropWhile is_word cs) = last (c # cs)"
        by (metis last_ConsR last_appendR takeWhile_dropWhile_id dropWhile.simps(1))
      then have "ends_nonword (dropWhile is_word cs) \<or> starts_nonword ys"
        using 2(3) ne by (auto simp: ends_nonword_def)
      then show ?thesis using True 2(1) tw dw by simp
    qed
  qed
qed

lemma starts_nonword_concat:
  assumes "\<forall>p. f p = p \<or> bracketed (f p)" "starts_nonword s"
  shows "starts_nonword (concat (map f (pieces s)))"
proof (cases s)
  case Nil
  then show ?thesis by (simp add: starts_nonword_def)
next
  case (Cons c cs)
  then have c: "\<not> is_word c" using assms(2) by (simp add: starts_nonword_def)
  have "f [c] = [c] \<or> bracketed (f [c])" using assms(1) by blast
  then have "f [c] \<noteq> [] \<and> \<not> is_word (hd (f [c]))" using c by (auto simp: bracketed_def)
  then show ?thesis using Cons c by (cases "f [c]") (auto simp: starts_nonword_def)
qed

lemma pieces_concat_map:
  assumes f: "\<forall>p. f p = p \<or> bracketed (f p)"
  shows "pieces (concat (map f (pieces s))) = concat (map (\<lambda>p. pieces (f p)) (pieces s))"
proof (induction s rule: pieces.induct)
  case 1
  then show ?case by simp
next
  case (2 c cs)
  show ?case
  proof (cases "is_word c")
    case False
    have "f [c] = [c] \<or> bracketed (f [c])" using f by blast
    then have "ends_nonword (f [c])" using False by (auto simp: bracketed_def ends_nonword_def)
    then show ?thesis using False 2(2) by (simp add: pieces_append)
  next
    case True
    let ?w = "c # takeWhile is_word cs"
    let ?r = "dropWhile is_word cs"
    have "starts_nonword (concat (map f (pieces ?r)))"
      by (rule starts_nonword_concat [OF f starts_nonword_dropWhile])
    then show ?thesis using True 2(1) by (simp add: pieces_append)
  qed
qed

lemma pieces_piece: "p \<in> set (pieces s) \<Longrightarrow> pieces p = [p] \<and> p \<noteq> [] \<and> set p \<subseteq> set s"
proof (induction s rule: pieces.induct)
  case 1
  then show ?case by simp
next
  case (2 c cs)
  show ?case
  proof (cases "is_word c")
    case False
    then show ?thesis using 2(2,3) by auto
  next
    case True
    let ?w = "c # takeWhile is_word cs"
    have aw: "all_word ?w" using True by (auto simp: all_word_def dest: set_takeWhileD)
    have w: "pieces ?w = [?w]"
      using pieces_run [OF aw, of "[]"] by (simp add: starts_nonword_def)
    have sub: "set (takeWhile is_word cs) \<subseteq> set cs" "set (dropWhile is_word cs) \<subseteq> set cs"
      by (auto dest: set_takeWhileD set_dropWhileD)
    have "p = ?w \<or> p \<in> set (pieces (dropWhile is_word cs))"
      using True 2(3) by simp
    then show ?thesis
    proof
      assume "p = ?w"
      then show ?thesis using w sub by auto
    next
      assume "p \<in> set (pieces (dropWhile is_word cs))"
      then show ?thesis using 2(1) [OF True] sub by auto
    qed
  qed
qed

lemma concat_map_map: "concat (concat (map (\<lambda>x. map g (h x)) xs)) = concat (map (\<lambda>x. concat (map g (h x))) xs)"
  by (induction xs) auto

lemma bracketed_wrapped: "bracketed (wrapped cls v)"
  by (simp add: bracketed_def wrapped_def is_word_def)

lemma mark_cases: "mark tab D p = p \<or> bracketed (mark tab D p)"
  by (auto simp: mark_def bracketed_wrapped split: option.splits)

lemma fold_substitute:
  assumes "\<forall>k\<in>set ks. all_word k"
    and "\<forall>k\<in>set ks. \<forall>p v cls. map_of tab p = Some (v, cls) \<longrightarrow> k \<notin> set (pieces (wrapped cls v))"
  shows "foldl (substitute_token tab) (concat (map (mark tab D) (pieces s))) ks =
         concat (map (mark tab (D @ ks)) (pieces s))"
  using assms
proof (induction ks arbitrary: D)
  case Nil
  then show ?case by simp
next
  case (Cons k ks)
  let ?X = "concat (map (mark tab D) (pieces s))"
  have step: "substitute_token tab ?X k = concat (map (mark tab (D @ [k])) (pieces s))"
  proof (cases "map_of tab k")
    case None
    then have "mark tab (D @ [k]) = mark tab D" by (auto simp: mark_def fun_eq_iff)
    then show ?thesis using None by (simp add: substitute_token_def)
  next
    case (Some e)
    obtain v cls where e: "e = (v, cls)" by (cases e)
    have k: "all_word k" using Cons.prems(1) by simp
    have free: "\<And>p v' cls'. map_of tab p = Some (v', cls') \<Longrightarrow> k \<notin> set (pieces (wrapped cls' v'))"
      using Cons.prems(2) by simp
    have "substitute_token tab ?X k = subst1 k (wrapped cls v) ?X"
      using Some e k by (simp add: substitute_token_def replace_token_pieces)
    also have "\<dots> = concat (map (\<lambda>q. concat (map (\<lambda>p. if p = k then wrapped cls v else p)
                        (pieces (mark tab D q)))) (pieces s))"
      using pieces_concat_map [of "mark tab D" s] mark_cases
      by (simp add: subst1_def map_concat comp_def concat_map_map)
    also have "\<dots> = concat (map (mark tab (D @ [k])) (pieces s))"
    proof -
      have "concat (map (\<lambda>p. if p = k then wrapped cls v else p) (pieces (mark tab D q)))
            = mark tab (D @ [k]) q" if q: "q \<in> set (pieces s)" for q
      proof (cases "q \<in> set D \<and> map_of tab q \<noteq> None")
        case True
        then obtain v' cls' where m: "map_of tab q = Some (v', cls')" by auto
        have mk: "mark tab D q = wrapped cls' v'" "mark tab (D @ [k]) q = wrapped cls' v'"
          using True m by (simp_all add: mark_def)
        have "k \<notin> set (pieces (wrapped cls' v'))" using free m by blast
        then have "map (\<lambda>p. if p = k then wrapped cls v else p) (pieces (wrapped cls' v'))
                   = pieces (wrapped cls' v')"
          by (intro map_idI) auto
        then show ?thesis using mk by (simp add: concat_pieces)
      next
        case False
        then have mk: "mark tab D q = q" by (auto simp: mark_def split: option.splits)
        have pq: "pieces q = [q]" using pieces_piece [OF q] by simp
        show ?thesis
        proof (cases "q = k")
          case True
          then show ?thesis using mk pq Some e by (simp add: mark_def)
        next
          case ne: False
          then have "mark tab (D @ [k]) q = q"
            using False by (auto simp: mark_def split: option.splits)
          then show ?thesis using mk pq ne by simp
        qed
      qed
      then have "map (\<lambda>q. concat (map (\<lambda>p. if p = k then wrapped cls v else p)
                        (pieces (mark tab D q)))) (pieces s)
                 = map (mark tab (D @ [k])) (pieces s)"
        by (intro map_cong refl)
      then show ?thesis by (rule arg_cong)
    qed
    finally show ?thesis .
  qed
  have "foldl (substitute_token tab) ?X (k # ks) =
        foldl (substitute_token tab) (concat (map (mark tab (D @ [k])) (pieces s))) ks"
    using step by simp
  also have "\<dots> = concat (map (mark tab ((D @ [k]) @ ks)) (pieces s))"
    using Cons.IH [of "D @ [k]"] Cons.prems by simp
  finally show ?case by simp
qed

lemma fold_substitute_one_pass:
  assumes "\<forall>k\<in>set ks. all_word k"
    and "\<forall>k\<in>set ks. \<forall>p v cls. map_of tab p = Some (v, cls) \<longrightarrow> k \<notin> set (pieces (wrapped cls v))"
    and "set ks = fst ` set tab"
  shows "foldl (substitute_token tab) s ks = one_pass tab s"
proof -
  have "mark tab ([] @ ks) = (\<lambda>p. case map_of tab p of None \<Rightarrow> p | Some (v, cls) \<Rightarrow> wrapped cls v)"
    using assms(3) by (force simp: mark_def fun_eq_iff split: option.splits dest!: map_of_SomeD)
  moreover have "mark tab [] = (\<lambda>p. p)"
    by (simp add: mark_def fun_eq_iff)
  then have "concat (map (mark tab []) (pieces s)) = s"
    by (simp add: concat_pieces)
  ultimately show ?thesis
    using fold_substitute [OF assms(1,2), of "[]" s] by (simp add: one_pass_def)
qed

lemma code_free_append:
  "ends_nonword xs \<or> starts_nonword ys \<Longrightarrow> code_free xs \<Longrightarrow> code_free ys \<Longrightarrow> code_free (xs @ ys)"
  by (simp add: code_free_def pieces_append)

lemma code_free_fixed:
  \<open>code_free ''<span class="''\<close> \<open>code_free ''">''\<close> \<open>code_free ''</span>''\<close>
  by (simp_all add: code_free_def token_codes_def is_word_def)

lemma code_free_wrapped:
  assumes "code_free cls" "code_free v"
  shows "code_free (wrapped cls v)"
proof -
  have s: "starts_nonword ''</span>''" \<open>starts_nonword (''">'' @ v @ ''</span>'')\<close>
    by (simp_all add: starts_nonword_def is_word_def)
  have e: \<open>ends_nonword ''">''\<close> \<open>ends_nonword ''<span class="''\<close>
    by (simp_all add: ends_nonword_def is_word_def)
  have 1: "code_free (v @ ''</span>'')"
    by (rule code_free_append [OF disjI2 [OF s(1)] assms(2) code_free_fixed(3)])
  have 2: \<open>code_free (''">'' @ v @ ''</span>'')\<close>
    by (rule code_free_append [OF disjI1 [OF e(1)] code_free_fixed(2) 1])
  have 3: \<open>code_free (cls @ ''">'' @ v @ ''</span>'')\<close>
    by (rule code_free_append [OF disjI2 [OF s(2)] assms(1) 2])
  have \<open>code_free (''<span class="'' @ cls @ ''">'' @ v @ ''</span>'')\<close>
    by (rule code_free_append [OF disjI1 [OF e(2)] code_free_fixed(1) 3])
  then show ?thesis by (simp add: wrapped_def)
qed

lemma code_free_digits:
  assumes "set v \<subseteq> set ''0123456789-''"
  shows "code_free v"
  unfolding code_free_def
proof (intro ballI notI)
  fix k assume k: "k \<in> set token_codes" and "k \<in> set (pieces v)"
  then have "set k \<subseteq> set ''0123456789-''" using pieces_piece [of k v] assms by blast
  then show False using k by (auto simp: token_codes_def)
qed

lemma code_free_classes:
  "code_free ''year-full''" "code_free ''year-short''" "code_free ''month-long''"
  "code_free ''month-short''" "code_free ''month-numeric''" "code_free ''day-numeric''"
  "code_free ''weekday-long''" "code_free ''weekday-short''"
  by (simp_all add: code_free_def token_codes_def is_word_def)

lemma code_free_names:
  "\<forall>x\<in>set [''January'', ''February'', ''March'', ''April'', ''May'', ''June'',
     ''July'', ''August'', ''September'', ''October'', ''November'', ''December'']. code_free x"
  "\<forall>x\<in>set [''Jan'', ''Feb'', ''Mar'', ''Apr'', ''May'', ''Jun'',
     ''Jul'', ''Aug'', ''Sep'', ''Oct'', ''Nov'', ''Dec'']. code_free x"
  "\<forall>x\<in>set [''Sunday'', ''Monday'', ''Tuesday'', ''Wednesday'', ''Thursday'',
     ''Friday'', ''Saturday'']. code_free x"
  "\<forall>x\<in>set [''Sun'', ''Mon'', ''Tue'', ''Wed'', ''Thu'', ''Fri'', ''Sat'']. code_free x"
  by (simp_all add: code_free_def token_codes_def is_word_def)

lemma digits_sub: "set ''0123456789'' \<subseteq> set ''0123456789-''"
proof -
  have "''0123456789-'' = ''0123456789'' @ ''-''" by simp
  then show ?thesis by (metis set_append Un_upper1)
qed

lemma int_string_chars_gen:
  assumes "\<And>n. set (dec_nat n) \<subseteq> D" "CHR ''-'' \<in> S" "D \<subseteq> S"
  shows "set (int_string i) \<subseteq> S"
  using assms by (auto simp: int_string_def)

lemma int_string_chars: "set (int_string i) \<subseteq> set ''0123456789-''"
proof (rule int_string_chars_gen)
  show "set (dec_nat n) \<subseteq> set ''0123456789''" for n using dec_nat_digits by blast
  show "CHR ''-'' \<in> set ''0123456789-''" by simp
  show "set ''0123456789'' \<subseteq> set ''0123456789-''" by (rule digits_sub)
qed

lemma padStart_chars: "set v \<subseteq> set ''0123456789-'' \<Longrightarrow> set (padStart n v) \<subseteq> set ''0123456789-''"
  by (auto simp: padStart_def)

lemma slice_last2_chars: "set v \<subseteq> set ''0123456789-'' \<Longrightarrow> set (slice_last2 v) \<subseteq> set ''0123456789-''"
  unfolding slice_last2_def using set_drop_subset by fastforce

lemma MonthFromTime_range: "0 \<le> MonthFromTime t \<and> MonthFromTime t \<le> 11"
  by (simp add: MonthFromTime_def Let_def)

lemma WeekDay_range: "0 \<le> WeekDay t \<and> WeekDay t < 7"
  by (simp add: WeekDay_def)

lemma code_free_month: "code_free (month_long (MonthFromTime t))" "code_free (month_short (MonthFromTime t))"
proof -
  have n: "nat (MonthFromTime t) < 12" using MonthFromTime_range [of t] by linarith
  show "code_free (month_long (MonthFromTime t))"
    unfolding month_long_def using n by (intro code_free_names(1) [rule_format] nth_mem) simp
  show "code_free (month_short (MonthFromTime t))"
    unfolding month_short_def using n by (intro code_free_names(2) [rule_format] nth_mem) simp
qed

lemma code_free_weekday: "code_free (weekday_long (WeekDay t))" "code_free (weekday_short (WeekDay t))"
proof -
  have n: "nat (WeekDay t) < 7" using WeekDay_range [of t] by linarith
  show "code_free (weekday_long (WeekDay t))"
    unfolding weekday_long_def using n by (intro code_free_names(3) [rule_format] nth_mem) simp
  show "code_free (weekday_short (WeekDay t))"
    unfolding weekday_short_def using n by (intro code_free_names(4) [rule_format] nth_mem) simp
qed

lemma tokens_entries_code_free:
  "\<forall>(k, v, cls)\<in>set (tokens b t). code_free (wrapped cls v)"
proof -
  note num = code_free_digits [OF int_string_chars]
    code_free_digits [OF padStart_chars [OF int_string_chars]]
    code_free_digits [OF slice_last2_chars [OF int_string_chars]]
  show ?thesis
    by (simp add: tokens_def Let_def code_free_wrapped code_free_classes code_free_month
        code_free_weekday num)
qed

lemma tokens_code_free:
  assumes "map_of (tokens b t) p = Some (v, cls)"
  shows "code_free (wrapped cls v)"
  using map_of_SomeD [OF assms] tokens_entries_code_free [of b t] by blast

lemma map_fst_tokens: "map fst (tokens b t) = token_codes"
  by (simp add: tokens_def Let_def token_codes_def)

lemma all_word_codes: "\<forall>k\<in>set token_codes. all_word k"
  by (simp add: token_codes_def all_word_def is_word_def)

lemma sortedTokens_codes:
  "sortedTokens (tokens b t) =
     [''YYYY'', ''MMMM'', ''dddd'', ''MMM'', ''ddd'', ''YY'', ''MM'', ''DD'', ''M'', ''D'']"
  by (simp add: sortedTokens_def map_fst_tokens token_codes_def)

lemma format_template_one_pass: "format_template b t fmt = one_pass (tokens b t) fmt"
proof -
  have s: "set (sortedTokens (tokens b t)) = set token_codes"
    by (simp add: sortedTokens_def map_fst_tokens)
  have 1: "\<forall>k\<in>set (sortedTokens (tokens b t)). all_word k"
    using all_word_codes s by simp
  have 2: "\<forall>k\<in>set (sortedTokens (tokens b t)). \<forall>p v cls.
      map_of (tokens b t) p = Some (v, cls) \<longrightarrow> k \<notin> set (pieces (wrapped cls v))"
    using tokens_code_free s by (auto simp: code_free_def)
  have 3: "set (sortedTokens (tokens b t)) = fst ` set (tokens b t)"
    using s map_fst_tokens [of b t] by (metis set_map)
  show ?thesis
    unfolding format_template_def by (rule fold_substitute_one_pass [OF 1 2 3])
qed


section \<open>Facts about the document\<close>

lemma elements_self: "is_element n \<Longrightarrow> n \<in> set (elements n)"
  by (cases n) (auto simp: is_element_def)

lemma elements_child:
  "k \<in> set ks \<Longrightarrow> e \<in> set (elements k) \<Longrightarrow> e \<in> set (elements (Elem i nm a ks))"
  by auto

lemma child_of_lift:
  "k \<in> set ks \<Longrightarrow> child_of k c p \<Longrightarrow> child_of (Elem i nm a ks) c p"
  unfolding child_of_def using elements_child by blast

lemma ancestors_Elem_other:
  assumes "i \<noteq> r" "ancestors r (Elem i nm a ks) \<noteq> []"
  shows "\<exists>k\<in>set ks. ancestors r k \<noteq> [] \<and> ancestors r (Elem i nm a ks) = ancestors r k @ [i]"
proof -
  obtain p ps where f: "filter (\<lambda>p. p \<noteq> []) (map (ancestors r) ks) = p # ps"
    using assms by (cases "filter (\<lambda>p. p \<noteq> []) (map (ancestors r) ks)") auto
  then have "p \<in> set (filter (\<lambda>p. p \<noteq> []) (map (ancestors r) ks))" by simp
  then obtain k where "k \<in> set ks" "p = ancestors r k" "p \<noteq> []" by auto
  then show ?thesis using assms(1) f by auto
qed

lemma ancestors_shape:
  "ancestors r n \<noteq> [] \<Longrightarrow>
     is_element n \<and> hd (ancestors r n) = r \<and> last (ancestors r n) = ident n
     \<and> successively (child_of n) (ancestors r n)"
proof (induction n)
  case (Text s)
  then show ?case by simp
next
  case (Elem i nm a ks)
  show ?case
  proof (cases "i = r")
    case True
    then show ?thesis by (simp add: is_element_def)
  next
    case False
    obtain k where k: "k \<in> set ks" "ancestors r k \<noteq> []"
      and eq: "ancestors r (Elem i nm a ks) = ancestors r k @ [i]"
      using ancestors_Elem_other [OF False Elem.prems] by blast
    have ih: "is_element k" "hd (ancestors r k) = r" "last (ancestors r k) = ident k"
      "successively (child_of k) (ancestors r k)"
      using Elem.IH [OF k] by simp_all
    have s1: "successively (child_of (Elem i nm a ks)) (ancestors r k)"
      using ih(4) child_of_lift [OF k(1)] by (rule successively_mono)
    have s2: "child_of (Elem i nm a ks) (ident k) i"
      unfolding child_of_def using k(1) ih(1) by (intro bexI [of _ "Elem i nm a ks"]) auto
    show ?thesis
      using eq k(2) ih s1 s2 by (simp add: successively_append_iff is_element_def)
  qed
qed

lemma ancestors_nonempty_iff: "ancestors r n \<noteq> [] \<longleftrightarrow> r \<in> ident ` set (elements n)"
proof (induction n)
  case (Text s)
  then show ?case by simp
next
  case (Elem i nm a ks)
  show ?case
  proof (cases "i = r")
    case True
    then show ?thesis by simp
  next
    case False
    have "ancestors r (Elem i nm a ks) \<noteq> [] \<longleftrightarrow> (\<exists>k\<in>set ks. ancestors r k \<noteq> [])"
    proof
      assume "ancestors r (Elem i nm a ks) \<noteq> []"
      then show "\<exists>k\<in>set ks. ancestors r k \<noteq> []"
        using ancestors_Elem_other [OF False] by blast
    next
      assume "\<exists>k\<in>set ks. ancestors r k \<noteq> []"
      then have "filter (\<lambda>p. p \<noteq> []) (map (ancestors r) ks) \<noteq> []"
        by (auto simp: filter_empty_conv)
      then show "ancestors r (Elem i nm a ks) \<noteq> []"
        using False by (cases "filter (\<lambda>p. p \<noteq> []) (map (ancestors r) ks)") auto
    qed
    then show ?thesis using False Elem.IH by auto
  qed
qed

lemma lookup_Some_ident: "lookup r doc = Some e \<Longrightarrow> ident e = r \<and> e \<in> set (elements doc)"
  unfolding lookup_def by (auto simp: find_Some_iff)

lemma lookup_ancestors: "lookup r doc = Some e \<Longrightarrow> ancestors r doc \<noteq> []"
  using lookup_Some_ident [of r doc e] ancestors_nonempty_iff [of r doc] by blast

lemma outside_map_attrs: "outside r (map_attrs r f n) = outside r n"
  by (induction n) auto

lemma outside_set_children: "outside r (set_children r new n) = outside r n"
  by (induction n) auto

lemma find_append:
  "find P (xs @ ys) = (case find P xs of None \<Rightarrow> find P ys | Some x \<Rightarrow> Some x)"
  by (induction xs) auto

lemma find_concat_map:
  assumes "\<And>n. n \<in> set ns \<Longrightarrow> find P (elements (T n)) = map_option h (find P (elements n))"
  shows "find P (concat (map elements (map T ns))) = map_option h (find P (concat (map elements ns)))"
  using assms
proof (induction ns)
  case Nil
  then show ?case by simp
next
  case (Cons n ns)
  then show ?case by (cases "find P (elements n)") (simp_all add: find_append)
qed

lemma find_map_attrs:
  "find (\<lambda>e. ident e = r) (elements (map_attrs r f n)) =
     map_option (\<lambda>e. Elem r (name_of e) (f (attrs e)) (map (map_attrs r f) (childNodes e)))
       (find (\<lambda>e. ident e = r) (elements n))"
proof (induction n)
  case (Text s)
  then show ?case by simp
next
  case (Elem i nm a ks)
  show ?case
  proof (cases "i = r")
    case True
    then show ?thesis by simp
  next
    case False
    have "find (\<lambda>e. ident e = r) (concat (map elements (map (map_attrs r f) ks))) =
          map_option (\<lambda>e. Elem r (name_of e) (f (attrs e)) (map (map_attrs r f) (childNodes e)))
            (find (\<lambda>e. ident e = r) (concat (map elements ks)))"
      by (rule find_concat_map) (rule Elem.IH)
    then show ?thesis using False by simp
  qed
qed

lemma find_set_children:
  "find (\<lambda>e. ident e = r) (elements (set_children r new n)) =
     map_option (\<lambda>e. Elem r (name_of e) (attrs e) new) (find (\<lambda>e. ident e = r) (elements n))"
proof (induction n)
  case (Text s)
  then show ?case by simp
next
  case (Elem i nm a ks)
  show ?case
  proof (cases "i = r")
    case True
    then show ?thesis by simp
  next
    case False
    have "find (\<lambda>e. ident e = r) (concat (map elements (map (set_children r new) ks))) =
          map_option (\<lambda>e. Elem r (name_of e) (attrs e) new)
            (find (\<lambda>e. ident e = r) (concat (map elements ks)))"
      by (rule find_concat_map) (rule Elem.IH)
    then show ?thesis using False by simp
  qed
qed

lemma annotate_plan: "annotate b sel r d = apply_plan b (plan b sel r d) d"
  by (simp add: annotate_def plan_def apply_plan_def split: option.splits)

lemma map_attrs_fuse: "map_attrs p f (map_attrs p g n) = map_attrs p (f \<circ> g) n"
  by (induction n) auto

lemma map_attrs_commute:
  "p \<noteq> q \<Longrightarrow> map_attrs p f (map_attrs q g n) = map_attrs q g (map_attrs p f n)"
  by (induction n) auto

lemma write_attributes_map_attrs:
  "write_attributes b p dv d = map_attrs p (four_updates b dv) d"
proof -
  have fe: "four_updates b dv =
      (\<lambda>x. AList.update ''data-day'' (number_string (getDate b (new_Date b dv)))
            (AList.update ''data-month''
              (number_string (map_option (\<lambda>m. m + 1) (getMonth b (new_Date b dv))))
              (AList.update ''data-year'' (number_string (getFullYear b (new_Date b dv)))
                (AList.update ''data-date'' dv x))))"
    by (simp add: fun_eq_iff four_updates_def)
  show ?thesis
    unfolding fe
    by (simp add: write_attributes_def Let_def setAttribute_def map_attrs_fuse comp_def)
qed

lemma update_commute:
  "k \<noteq> k' \<Longrightarrow> k \<in> fst ` set al \<Longrightarrow>
   AList.update k v (AList.update k' v' al) = AList.update k' v' (AList.update k v al)"
  by (induction al) auto

lemma keys_foldr_update:
  "k \<in> fst ` set al \<Longrightarrow> k \<in> fst ` set (foldr (\<lambda>(k, v). AList.update k v) ups al)"
  by (induction ups) (simp_all add: dom_update case_prod_beta)

lemma update_absorb_through:
  assumes "k \<notin> fst ` set ups"
  shows "AList.update k a (foldr (\<lambda>(k, v). AList.update k v) ups (AList.update k b al)) =
         foldr (\<lambda>(k, v). AList.update k v) ups (AList.update k a al)"
  using assms
proof (induction ups)
  case Nil
  then show ?case by simp
next
  case (Cons u ups)
  obtain k' v' where u: "u = (k', v')" by (cases u)
  have ne: "k \<noteq> k'" using Cons.prems u by auto
  have "k \<in> fst ` set (AList.update k b al)" by (simp add: dom_update)
  then have mem: "k \<in> fst ` set (foldr (\<lambda>(k, v). AList.update k v) ups (AList.update k b al))"
    by (rule keys_foldr_update)
  have "AList.update k a (foldr (\<lambda>(k, v). AList.update k v) (u # ups) (AList.update k b al)) =
        AList.update k' v' (AList.update k a
          (foldr (\<lambda>(k, v). AList.update k v) ups (AList.update k b al)))"
    using update_commute [OF ne mem] u by simp
  also have "\<dots> = AList.update k' v' (foldr (\<lambda>(k, v). AList.update k v) ups (AList.update k a al))"
    using Cons.IH Cons.prems by simp
  finally show ?case using u by simp
qed

lemma four_updates_absorb: "four_updates b dv (four_updates b dv' al) = four_updates b dv al"
proof -
  have 1: "AList.update ''data-date'' a1 (AList.update ''data-day'' b4 (AList.update ''data-month'' b3
            (AList.update ''data-year'' b2 (AList.update ''data-date'' b1 xs)))) =
        AList.update ''data-day'' b4 (AList.update ''data-month'' b3
            (AList.update ''data-year'' b2 (AList.update ''data-date'' a1 xs)))"
    for a1 b1 b2 b3 b4 xs
    using update_absorb_through [of "''data-date''"
        "[(''data-day'', b4), (''data-month'', b3), (''data-year'', b2)]" a1 b1 xs]
    by simp
  have 2: "AList.update ''data-year'' a2 (AList.update ''data-day'' b4 (AList.update ''data-month'' b3
            (AList.update ''data-year'' b2 xs))) =
        AList.update ''data-day'' b4 (AList.update ''data-month'' b3 (AList.update ''data-year'' a2 xs))"
    for a2 b2 b3 b4 xs
    using update_absorb_through [of "''data-year''"
        "[(''data-day'', b4), (''data-month'', b3)]" a2 b2 xs]
    by simp
  have 3: "AList.update ''data-month'' a3 (AList.update ''data-day'' b4 (AList.update ''data-month'' b3 xs)) =
        AList.update ''data-day'' b4 (AList.update ''data-month'' a3 xs)"
    for a3 b3 b4 xs
    using update_absorb_through [of "''data-month''" "[(''data-day'', b4)]" a3 b3 xs]
    by simp
  show ?thesis
    unfolding four_updates_def by (simp only: 1 2 3 update_last)
qed

lemma apply_plan_absorb:
  "apply_plan b (Some (p, dv)) (apply_plan b (Some (p, dv')) d) = apply_plan b (Some (p, dv)) d"
proof -
  have "four_updates b dv \<circ> four_updates b dv' = four_updates b dv"
    by (simp add: fun_eq_iff four_updates_absorb)
  then show ?thesis
    by (simp add: apply_plan_def write_attributes_map_attrs map_attrs_fuse)
qed

lemma apply_plan_commute:
  "p \<noteq> q \<Longrightarrow> apply_plan b (Some (p, dv)) (apply_plan b (Some (q, dw)) d) =
     apply_plan b (Some (q, dw)) (apply_plan b (Some (p, dv)) d)"
  by (simp add: apply_plan_def write_attributes_map_attrs map_attrs_commute)

lemma run_plans_Cons: "run_plans b (x # xs) d = run_plans b xs (apply_plan b x d)"
  by (simp add: run_plans_def)

lemma run_plans_append: "run_plans b (xs @ ys) d = run_plans b ys (run_plans b xs d)"
  by (simp add: run_plans_def)

lemma apply_again:
  "apply_plan b a (run_plans b xs (apply_plan b a d)) = apply_plan b a (run_plans b xs d)"
proof (induction xs arbitrary: d)
  case Nil
  show ?case
  proof (cases a)
    case None
    then show ?thesis by (simp add: run_plans_def apply_plan_def)
  next
    case (Some pd)
    then show ?thesis by (cases pd) (simp add: run_plans_def apply_plan_absorb)
  qed
next
  case (Cons x xs)
  show ?case
  proof (cases a)
    case None
    then show ?thesis by (simp add: apply_plan_def)
  next
    case a: (Some pd)
    obtain p dv where pd: "pd = (p, dv)" by (cases pd)
    show ?thesis
    proof (cases x)
      case None
      then have "apply_plan b x = (\<lambda>d. d)" by (simp add: apply_plan_def fun_eq_iff)
      then show ?thesis using Cons.IH by (simp add: run_plans_Cons)
    next
      case x: (Some qd)
      obtain q dw where qd: "qd = (q, dw)" by (cases qd)
      show ?thesis
      proof (cases "p = q")
        case True
        then have "apply_plan b x (apply_plan b a d) = apply_plan b x d"
          using a pd x qd by (simp add: apply_plan_absorb)
        then show ?thesis by (simp add: run_plans_Cons)
      next
        case False
        then have "apply_plan b x (apply_plan b a d) = apply_plan b a (apply_plan b x d)"
          using a pd x qd apply_plan_commute [of q p b dw dv d] by simp
        then show ?thesis using Cons.IH [of "apply_plan b x d"] by (simp add: run_plans_Cons)
      qed
    qed
  qed
qed

lemma run_plans_again:
  "run_plans b xs (run_plans b ys (run_plans b xs d)) = run_plans b xs (run_plans b ys d)"
proof (induction xs arbitrary: d rule: rev_induct)
  case Nil
  then show ?case by (simp add: run_plans_def)
next
  case (snoc a xs)
  have "run_plans b (xs @ [a]) (run_plans b ys (run_plans b (xs @ [a]) d)) =
        apply_plan b a (run_plans b (ys @ xs) (apply_plan b a (run_plans b xs d)))"
    by (simp add: run_plans_append run_plans_def)
  also have "\<dots> = apply_plan b a (run_plans b (ys @ xs) (run_plans b xs d))"
    by (rule apply_again)
  also have "\<dots> = apply_plan b a (run_plans b xs (run_plans b ys (run_plans b xs d)))"
    by (simp add: run_plans_append)
  also have "\<dots> = apply_plan b a (run_plans b xs (run_plans b ys d))"
    by (simp add: snoc.IH)
  also have "\<dots> = run_plans b (xs @ [a]) (run_plans b ys d)"
    by (simp add: run_plans_append run_plans_def)
  finally show ?case .
qed

lemma run_plans_idem: "run_plans b xs (run_plans b xs d) = run_plans b xs d"
  using run_plans_again [of b xs "[]" d] by (simp add: run_plans_def)

lemma elements_are_elements: "e \<in> set (elements n) \<Longrightarrow> is_element e"
  by (induction n) (auto simp: is_element_def)

lemma elements_map_attrs: "elements (map_attrs p f n) = map (map_attrs p f) (elements n)"
proof (induction n)
  case (Text s)
  then show ?case by simp
next
  case (Elem i nm a ks)
  have "concat (map elements (map (map_attrs p f) ks)) =
        concat (map (\<lambda>k. map (map_attrs p f) (elements k)) ks)"
    using Elem.IH by (simp add: comp_def cong: map_cong)
  also have "\<dots> = map (map_attrs p f) (concat (map elements ks))"
    by (simp add: map_concat comp_def)
  finally show ?case by simp
qed

lemma map_attrs_keeps:
  "is_element e \<Longrightarrow> ident (map_attrs p f e) = ident e \<and> name_of (map_attrs p f e) = name_of e"
  by (cases e) (simp_all add: is_element_def)

lemma find_map: "find P (map g xs) = map_option g (find (P \<circ> g) xs)"
  by (induction xs) auto

lemma lookup_map_attrs: "lookup r (map_attrs p f d) = map_option (map_attrs p f) (lookup r d)"
proof -
  have "find ((\<lambda>e. ident e = r) \<circ> map_attrs p f) (elements d) = find (\<lambda>e. ident e = r) (elements d)"
    by (rule find_cong) (simp_all add: map_attrs_keeps elements_are_elements)
  then show ?thesis by (simp add: lookup_def elements_map_attrs find_map)
qed

lemma time_elements_map_attrs: "time_elements (map_attrs p f d) = time_elements d"
proof -
  have "map ident (filter (\<lambda>e. localName (name_of e) = ''time'') (map (map_attrs p f) xs)) =
        map ident (filter (\<lambda>e. localName (name_of e) = ''time'') xs)"
    if "\<forall>e\<in>set xs. is_element e" for xs
    using that by (induction xs) (auto simp: map_attrs_keeps)
  then show ?thesis
    by (simp add: time_elements_def elements_map_attrs elements_are_elements)
qed

lemma textContent_map_attrs: "textContent (map_attrs p f n) = textContent n"
  by (induction n) (auto simp: comp_def cong: map_cong)

lemma ancestors_map_attrs: "ancestors r (map_attrs p f n) = ancestors r n"
proof (induction n)
  case (Text s)
  then show ?case by simp
next
  case (Elem i nm a ks)
  have m: "map (ancestors r \<circ> map_attrs p f) ks = map (ancestors r) ks"
    using Elem.IH by (intro map_cong) simp_all
  show ?case by (simp add: m)
qed

lemma resolve_dateValue_map_attrs:
  assumes "\<And>a. map_of (f a) ''datetime'' = map_of a ''datetime''"
  shows "resolve_dateValue b (map_attrs p f e) = resolve_dateValue b e"
proof -
  have ga: "getAttribute (map_attrs p f e) ''datetime'' = getAttribute e ''datetime''"
    using assms by (cases e) (simp_all add: getAttribute_def)
  show ?thesis
    unfolding resolve_dateValue_def ga textContent_map_attrs ..
qed

lemma plan_setAttribute:
  assumes "\<forall>sel. parentSelector = Some sel \<and> sel \<noteq> [] \<longrightarrow> ignores_annotations b sel"
    and "k \<in> set annotation_keys"
  shows "plan b parentSelector r (setAttribute p k v d) = plan b parentSelector r d"
proof -
  have k: "k \<noteq> ''datetime''" using assms(2) by (auto simp: annotation_keys_def)
  have dv: "resolve_dateValue b (map_attrs p (AList.update k v) e) = resolve_dateValue b e" for e
    using k by (intro resolve_dateValue_map_attrs) (auto simp: update_conv')
  have rp: "resolve_parent b parentSelector r (setAttribute p k v d) = resolve_parent b parentSelector r d"
  proof (cases "\<exists>sel. parentSelector = Some sel \<and> sel \<noteq> []")
    case True
    then obtain sel where s: "parentSelector = Some sel" "sel \<noteq> []" by blast
    then have "sel_matches b sel (setAttribute p k v d) = sel_matches b sel d"
      using assms by (simp add: ignores_annotations_def)
    then show ?thesis
      using s by (simp add: resolve_parent_def closest_def setAttribute_def ancestors_map_attrs)
  next
    case False
    then show ?thesis
      by (auto simp: resolve_parent_def parentElement_def setAttribute_def ancestors_map_attrs
          split: option.splits)
  qed
  show ?thesis
    unfolding plan_def rp
    by (cases "lookup r d") (simp_all add: setAttribute_def lookup_map_attrs dv)
qed

lemma plan_apply_plan:
  assumes "\<forall>sel. parentSelector = Some sel \<and> sel \<noteq> [] \<longrightarrow> ignores_annotations b sel"
  shows "plan b parentSelector r (apply_plan b pl d) = plan b parentSelector r d"
proof (cases pl)
  case None
  then show ?thesis by (simp add: apply_plan_def)
next
  case (Some pd)
  obtain p dv where "pd = (p, dv)" by (cases pd)
  then show ?thesis
    using Some by (simp add: apply_plan_def write_attributes_def Let_def
        plan_setAttribute [OF assms] annotation_keys_def)
qed

lemma time_elements_apply_plan: "time_elements (apply_plan b pl d) = time_elements d"
  by (cases pl) (auto simp: apply_plan_def write_attributes_map_attrs time_elements_map_attrs)

lemma plan_run_plans:
  assumes "\<forall>sel. parentSelector = Some sel \<and> sel \<noteq> [] \<longrightarrow> ignores_annotations b sel"
  shows "plan b parentSelector r (run_plans b pls d) = plan b parentSelector r d"
  by (induction pls arbitrary: d) (simp_all add: run_plans_def plan_apply_plan [OF assms])

lemma time_elements_run_plans: "time_elements (run_plans b pls d) = time_elements d"
  by (induction pls arbitrary: d) (simp_all add: run_plans_def time_elements_apply_plan)

lemma annotate_loop_plans:
  assumes "\<forall>sel. parentSelector = Some sel \<and> sel \<noteq> [] \<longrightarrow> ignores_annotations b sel"
    and "\<forall>r. plan b parentSelector r d = P r"
  shows "foldl (\<lambda>d r. annotate b parentSelector r d) d rs = run_plans b (map P rs) d"
  using assms(2)
proof (induction rs arbitrary: d)
  case Nil
  then show ?case by (simp add: run_plans_def)
next
  case (Cons r rs)
  have "\<forall>r'. plan b parentSelector r' (apply_plan b (P r) d) = P r'"
    using Cons.prems by (simp add: plan_apply_plan [OF assms(1)])
  then have "foldl (\<lambda>d r. annotate b parentSelector r d) (apply_plan b (P r) d) rs =
             run_plans b (map P rs) (apply_plan b (P r) d)"
    by (rule Cons.IH)
  then show ?case using Cons.prems by (simp add: annotate_plan run_plans_Cons)
qed


lemma find_append_Some: "find P xs = Some x \<Longrightarrow> find P (xs @ ys) = Some x"
  by (simp add: find_append)

lemma all_elements_set_attribute_page:
  "find (\<lambda>e. ident e = r) (all_elements (set_attribute_page r k v pg)) =
     map_option (\<lambda>e. Elem r (name_of e) (AList.update k v (attrs e))
                   (map (map_attrs r (AList.update k v)) (childNodes e)))
       (find (\<lambda>e. ident e = r) (all_elements pg))"
proof -
  have d: "find (\<lambda>e. ident e = r)
             (concat (map elements (map (map_attrs r (AList.update k v)) (detached pg)))) =
           map_option (\<lambda>e. Elem r (name_of e) (AList.update k v (attrs e))
                   (map (map_attrs r (AList.update k v)) (childNodes e)))
             (find (\<lambda>e. ident e = r) (concat (map elements (detached pg))))"
    by (rule find_concat_map) (rule find_map_attrs)
  have sa: "setAttribute r k v = map_attrs r (AList.update k v)"
    by (simp add: fun_eq_iff setAttribute_def)
  show ?thesis
    by (cases "find (\<lambda>e. ident e = r) (elements (document pg))")
      (simp_all add: all_elements_def set_attribute_page_def sa find_append
        find_map_attrs d [unfolded map_map])
qed

lemma lookup_page_set_attribute:
  "lookup_page r pg = Some el \<Longrightarrow>
   lookup_page r (set_attribute_page r k v pg) =
     Some (Elem r (name_of el) (AList.update k v (attrs el))
             (map (map_attrs r (AList.update k v)) (childNodes el)))"
  by (simp add: lookup_page_def all_elements_set_attribute_page)

lemma lookup_page_set_innerHTML:
  assumes "lookup_page r pg = Some el"
  shows "lookup_page r (set_innerHTML b r html pg) =
           Some (Elem r (name_of el) (attrs el) (parse_html b html (fresh pg)))"
proof -
  let ?new = "parse_html b html (fresh pg)"
  let ?P = "\<lambda>e. ident e = r"
  let ?h = "\<lambda>e. Elem r (name_of e) (attrs e) ?new"
  have d: "find ?P (concat (map elements (map (set_children r ?new) (detached pg)))) =
           map_option ?h (find ?P (concat (map elements (detached pg))))"
    by (rule find_concat_map) (rule find_set_children)
  have "find ?P (elements (set_children r ?new (document pg))
                  @ concat (map elements (map (set_children r ?new) (detached pg)))) =
        map_option ?h (find ?P (all_elements pg))"
    by (cases "find ?P (elements (document pg))")
      (simp_all add: all_elements_def find_append find_set_children d [unfolded map_map])
  then have f: "find ?P (elements (set_children r ?new (document pg))
                  @ concat (map elements (map (set_children r ?new) (detached pg)))) = Some (?h el)"
    using assms by (simp add: lookup_page_def)
  have ae: "all_elements (set_innerHTML b r html pg) =
      (elements (set_children r ?new (document pg))
         @ concat (map elements (map (set_children r ?new) (detached pg))))
      @ concat (map elements (filter is_element (childNodes el)))"
    using assms by (simp add: set_innerHTML_def all_elements_def Let_def)
  show ?thesis
    unfolding lookup_page_def ae by (rule find_append_Some [OF f])
qed

lemma is_element_map_attrs: "is_element (map_attrs r f k) = is_element k"
  by (cases k) (simp_all add: is_element_def)

lemma outside_removed:
  "map (outside r) (filter is_element (map (map_attrs r f) ks)) =
   map (outside r) (filter is_element ks)"
  by (induction ks) (simp_all add: is_element_map_attrs outside_map_attrs)

lemma format_element_parsed:
  assumes "lookup_page r pg = Some el" and "new_Date b (trim (textContent el)) = Some t"
  shows "format_element b cfg r pg =
           set_innerHTML b r (markup b (name cfg) (format cfg) t)
             (if tagName b el = ''TIME''
              then set_attribute_page r ''datetime'' (split_T_first (toISOString t)) pg
              else pg)"
  using assms by (simp add: format_element_def Let_def)

lemma lookup_page_format_element:
  assumes "lookup_page r pg = Some el" and "new_Date b (trim (textContent el)) = Some t"
  shows "lookup_page r (format_element b cfg r pg) =
           Some (Elem r (name_of el)
                  (if tagName b el = ''TIME''
                   then AList.update ''datetime'' (split_T_first (toISOString t)) (attrs el)
                   else attrs el)
                  (parse_html b (markup b (name cfg) (format cfg) t)
                     (fresh (if tagName b el = ''TIME''
                             then set_attribute_page r ''datetime''
                                    (split_T_first (toISOString t)) pg
                             else pg))))"
proof (cases "tagName b el = ''TIME''")
  case True
  show ?thesis
    unfolding format_element_parsed [OF assms]
    using True lookup_page_set_innerHTML [OF lookup_page_set_attribute [OF assms(1)]]
    by simp
next
  case False
  show ?thesis
    unfolding format_element_parsed [OF assms]
    using False lookup_page_set_innerHTML [OF assms(1)] by simp
qed

lemma outside_format_element:
  assumes "lookup_page r pg = Some el" and "new_Date b (trim (textContent el)) = Some t"
  shows "outside r (document (format_element b cfg r pg)) = outside r (document pg)
       \<and> map (outside r) (detached (format_element b cfg r pg)) =
           map (outside r) (detached pg @ filter is_element (childNodes el))"
proof (cases "tagName b el = ''TIME''")
  case True
  let ?pg1 = "set_attribute_page r ''datetime'' (split_T_first (toISOString t)) pg"
  have l: "lookup_page r ?pg1 =
      Some (Elem r (name_of el) (AList.update ''datetime'' (split_T_first (toISOString t)) (attrs el))
             (map (map_attrs r (AList.update ''datetime'' (split_T_first (toISOString t))))
                (childNodes el)))"
    by (rule lookup_page_set_attribute [OF assms(1)])
  show ?thesis
    unfolding format_element_parsed [OF assms]
    using True l
    by (simp add: set_innerHTML_def Let_def set_attribute_page_def setAttribute_def
        outside_set_children outside_map_attrs outside_removed comp_def)
next
  case False
  show ?thesis
    unfolding format_element_parsed [OF assms]
    using False assms(1)
    by (simp add: set_innerHTML_def Let_def outside_set_children comp_def)
qed


section \<open>The annotator\<close>

lemma write_attributes_west:
  "write_attributes (browser_at (- 18000000)) p ''2025-12-09'' d =
     setAttribute p ''data-day'' ''8'' (setAttribute p ''data-month'' ''12''
       (setAttribute p ''data-year'' ''2025'' (setAttribute p ''data-date'' ''2025-12-09'' d)))"
  by (simp add: write_attributes_def new_Date_2025_12_09 getFullYear_def getMonth_def
      getDate_def LocalTime_browser_at date_1765220400000 number_string_def
      int_string_samples)

lemma write_attributes_utc:
  "write_attributes (browser_at 0) p ''2025-12-09'' d =
     setAttribute p ''data-day'' ''9'' (setAttribute p ''data-month'' ''12''
       (setAttribute p ''data-year'' ''2025'' (setAttribute p ''data-date'' ''2025-12-09'' d)))"
  by (simp add: write_attributes_def new_Date_2025_12_09 getFullYear_def getMonth_def
      getDate_def LocalTime_browser_at date_1765238400000 number_string_def
      int_string_samples)

lemma write_attributes_TBD:
  "write_attributes (browser_at 0) p ''TBD'' d =
     setAttribute p ''data-day'' ''NaN'' (setAttribute p ''data-month'' ''NaN''
       (setAttribute p ''data-year'' ''NaN'' (setAttribute p ''data-date'' ''TBD'' d)))"
  by (simp add: write_attributes_def new_Date_TBD getFullYear_def getMonth_def
      getDate_def number_string_def)

lemmas annotator_run =
  addDateDataAttributes_def post_def time_elements_def annotate_def lookup_def
  resolve_dateValue_def getAttribute_def truthy_def resolve_parent_def parentElement_def
  setAttribute_def

lemma trim_sample: "trim ''December 9, 2025'' = ''December 9, 2025''"
  by (simp add: trim_def is_space_def)

lemma sel_matches_browser_at: "sel_matches (browser_at offset) = sample_matches"
  by (simp add: browser_at_def)

lemma sample_post_date_ignores: "ignores_annotations (browser_at offset) ''.post-date''"
proof -
  have "sample_matches ''.post-date'' (setAttribute p k v doc) r = sample_matches ''.post-date'' doc r"
    if k: "k \<in> set annotation_keys" for doc p k v r
  proof (cases "lookup r doc")
    case None
    then show ?thesis by (simp add: sample_matches_def setAttribute_def lookup_map_attrs)
  next
    case (Some e)
    then have "is_element e" using lookup_Some_ident elements_are_elements by blast
    then obtain i n a ks where e: "e = Elem i n a ks" by (cases e) (auto simp: is_element_def)
    have "k \<noteq> ''class''" using k by (auto simp: annotation_keys_def)
    then show ?thesis
      using Some e
      by (simp add: sample_matches_def setAttribute_def lookup_map_attrs getAttribute_def
          update_conv')
  qed
  then show ?thesis
    by (simp add: ignores_annotations_def sel_matches_browser_at fun_eq_iff)
qed

lemmas annotator_run_selector =
  annotator_run closest_def sel_matches_browser_at sample_matches_def

lemma annotate_once_not:
  "addDateDataAttributes (browser_at 0) (Some '':not([data-date])'')
     (post [(''datetime'', ''2025-12-09'')] ''December 9, 2025'') =
   Elem 10 (html_name ''div'') [(''class'', ''post-date'')]
     [Elem 11 (html_name ''time'')
        [(''datetime'', ''2025-12-09''), (''data-date'', ''2025-12-09''),
         (''data-year'', ''2025''), (''data-month'', ''12''), (''data-day'', ''9'')]
        [Text ''December 9, 2025'']]"
  by (simp add: annotator_run_selector write_attributes_utc)

lemma annotate_twice_not:
  "addDateDataAttributes (browser_at 0) (Some '':not([data-date])'')
     (Elem 10 (html_name ''div'') [(''class'', ''post-date'')]
     [Elem 11 (html_name ''time'')
        [(''datetime'', ''2025-12-09''), (''data-date'', ''2025-12-09''),
         (''data-year'', ''2025''), (''data-month'', ''12''), (''data-day'', ''9'')]
        [Text ''December 9, 2025'']]) =
   Elem 10 (html_name ''div'')
     [(''class'', ''post-date''), (''data-date'', ''2025-12-09''),
         (''data-year'', ''2025''), (''data-month'', ''12''), (''data-day'', ''9'')]
     [Elem 11 (html_name ''time'')
        [(''datetime'', ''2025-12-09''), (''data-date'', ''2025-12-09''),
         (''data-year'', ''2025''), (''data-month'', ''12''), (''data-day'', ''9'')]
        [Text ''December 9, 2025'']]"
  by (simp add: annotator_run_selector write_attributes_utc)

lemma annotate_once_post_date:
  "addDateDataAttributes (browser_at 0) (Some ''.post-date'')
     (post [(''datetime'', ''2025-12-09'')] ''December 9, 2025'') =
   Elem 10 (html_name ''div'')
     [(''class'', ''post-date''), (''data-date'', ''2025-12-09''),
         (''data-year'', ''2025''), (''data-month'', ''12''), (''data-day'', ''9'')]
     [Elem 11 (html_name ''time'') [(''datetime'', ''2025-12-09'')] [Text ''December 9, 2025'']]"
  by (simp add: annotator_run_selector write_attributes_utc)

lemma sample_post_lookup:
  "lookup 11 (post [(''datetime'', ''2025-12-09'')] ''December 9, 2025'') =
     Some (Elem 11 (html_name ''time'') [(''datetime'', ''2025-12-09'')] [Text ''December 9, 2025''])"
  by (simp add: post_def lookup_def)

lemma sample_post_dateValue:
  "resolve_dateValue (browser_at 0)
     (Elem 11 (html_name ''time'') [(''datetime'', ''2025-12-09'')] [Text ''December 9, 2025'']) =
   Some ''2025-12-09''"
  by (simp add: resolve_dateValue_def getAttribute_def truthy_def)

lemma sample_post_root_lookup:
  "lookup 10 (post [(''datetime'', ''2025-12-09'')] ''December 9, 2025'') =
     Some (post [(''datetime'', ''2025-12-09'')] ''December 9, 2025'')"
  by (simp add: post_def lookup_def)

lemma sample_post_root_dateValue:
  "resolve_dateValue (browser_at 0) (post [(''datetime'', ''2025-12-09'')] ''December 9, 2025'') =
   Some ''2025-12-09''"
  by (simp add: resolve_dateValue_def getAttribute_def truthy_def post_def trim_sample
      new_Date_sample toISOString_1765238400000)

lemma sample_post_parents:
  "resolve_parent (browser_at 0) (Some ''.post-date'') 11
     (post [(''datetime'', ''2025-12-09'')] ''December 9, 2025'') = Some 10"
  "resolve_parent (browser_at 0) (Some ''time'') 11
     (post [(''datetime'', ''2025-12-09'')] ''December 9, 2025'') = Some 11"
  "resolve_parent (browser_at 0) None 11
     (post [(''datetime'', ''2025-12-09'')] ''December 9, 2025'') = Some 10"
  "resolve_parent (browser_at 0) None 10
     (post [(''datetime'', ''2025-12-09'')] ''December 9, 2025'') = None"
  by (simp_all add: resolve_parent_def closest_def parentElement_def truthy_def post_def
      sel_matches_browser_at sample_matches_def lookup_def getAttribute_def)

text \<open>
  C1 (the code departs from the claim).  A time element with the machine-readable
  value \<open>2025-12-09\<close>, read in a time zone five hours behind UTC: the string is
  midnight UTC, the getters read local time, which is still the eighth, so
  \<open>data-day\<close> is 8 and not the day of the date.
\<close>

theorem annotator_day_behind_utc:
  "addDateDataAttributes (browser_at (- 18000000)) None
     (post [(''datetime'', ''2025-12-09'')] ''December 9, 2025'') =
   Elem 10 (html_name ''div'')
     [(''class'', ''post-date''), (''data-date'', ''2025-12-09''), (''data-year'', ''2025''),
      (''data-month'', ''12''), (''data-day'', ''8'')]
     [Elem 11 (html_name ''time'') [(''datetime'', ''2025-12-09'')] [Text ''December 9, 2025'']]"
  by (simp add: annotator_run write_attributes_west)

text \<open>
  C2 (the code departs from the claim).  A time element whose machine-readable value
  is \<open>TBD\<close>: the value is not a date, and yet the four attributes are written, three
  of them \<open>NaN\<close>.  Only the path through the text checks the date.
\<close>

theorem annotator_writes_invalid_datetime:
  "addDateDataAttributes (browser_at 0) None (post [(''datetime'', ''TBD'')] ''TBD'') =
   Elem 10 (html_name ''div'')
     [(''class'', ''post-date''), (''data-date'', ''TBD''), (''data-year'', ''NaN''),
      (''data-month'', ''NaN''), (''data-day'', ''NaN'')]
     [Elem 11 (html_name ''time'') [(''datetime'', ''TBD'')] [Text ''TBD'']]"
  by (simp add: annotator_run write_attributes_TBD)

text \<open>
  C5.  For an element of the document that has a date value, the annotator writes the
  attributes on the target that \<open>resolve_parent\<close> gives, and leaves the document as
  it is when there is none.  The chain \<open>ancestors\<close> starts at the element and goes
  from child to parent.  With a selector configured the target is the first element of
  the chain that matches, the element itself if it matches, and there is none exactly
  when nothing in the chain matches; without one (or with the empty selector) it is the
  second element of the chain, the parent, and there is none when the element is the
  root.
\<close>

theorem ancestor_resolution:
  assumes "lookup r doc = Some timeEl" and "resolve_dateValue b timeEl = Some dv"
  shows "annotate b parentSelector r doc =
           (case resolve_parent b parentSelector r doc of
              None \<Rightarrow> doc
            | Some p \<Rightarrow> write_attributes b p dv doc)
       \<and> hd (ancestors r doc) = r \<and> successively (child_of doc) (ancestors r doc)
       \<and> (\<forall>sel. parentSelector = Some sel \<and> sel \<noteq> [] \<longrightarrow>
             (\<forall>p. resolve_parent b parentSelector r doc = Some p \<longleftrightarrow>
                (\<exists>i<length (ancestors r doc). ancestors r doc ! i = p \<and> sel_matches b sel doc p
                   \<and> (\<forall>j<i. \<not> sel_matches b sel doc (ancestors r doc ! j))))
           \<and> (resolve_parent b parentSelector r doc = None \<longleftrightarrow>
                (\<forall>q\<in>set (ancestors r doc). \<not> sel_matches b sel doc q))
           \<and> (sel_matches b sel doc r \<longrightarrow> resolve_parent b parentSelector r doc = Some r))
       \<and> (\<not> truthy parentSelector \<longrightarrow>
             (\<forall>p. resolve_parent b parentSelector r doc = Some p \<longleftrightarrow>
                (1 < length (ancestors r doc) \<and> ancestors r doc ! 1 = p))
           \<and> (\<forall>p. resolve_parent b parentSelector r doc = Some p \<longrightarrow> child_of doc r p))"
proof -
  let ?anc = "ancestors r doc"
  have ne: "?anc \<noteq> []" using lookup_ancestors [OF assms(1)] .
  have sh: "hd ?anc = r" "successively (child_of doc) ?anc"
    using ancestors_shape [OF ne] by simp_all
  have 1: "annotate b parentSelector r doc =
           (case resolve_parent b parentSelector r doc of
              None \<Rightarrow> doc
            | Some p \<Rightarrow> write_attributes b p dv doc)"
    using assms by (simp add: annotate_def)
  have 2: "\<forall>sel. parentSelector = Some sel \<and> sel \<noteq> [] \<longrightarrow>
             (\<forall>p. resolve_parent b parentSelector r doc = Some p \<longleftrightarrow>
                (\<exists>i<length ?anc. ?anc ! i = p \<and> sel_matches b sel doc p
                   \<and> (\<forall>j<i. \<not> sel_matches b sel doc (?anc ! j))))
           \<and> (resolve_parent b parentSelector r doc = None \<longleftrightarrow>
                (\<forall>q\<in>set ?anc. \<not> sel_matches b sel doc q))
           \<and> (sel_matches b sel doc r \<longrightarrow> resolve_parent b parentSelector r doc = Some r)"
  proof (intro allI impI conjI)
    fix sel p assume s: "parentSelector = Some sel \<and> sel \<noteq> []"
    show "resolve_parent b parentSelector r doc = Some p \<longleftrightarrow>
                (\<exists>i<length ?anc. ?anc ! i = p \<and> sel_matches b sel doc p
                   \<and> (\<forall>j<i. \<not> sel_matches b sel doc (?anc ! j)))"
      using s by (auto simp: resolve_parent_def closest_def find_Some_iff)
  next
    fix sel assume s: "parentSelector = Some sel \<and> sel \<noteq> []"
    show "resolve_parent b parentSelector r doc = None \<longleftrightarrow>
                (\<forall>q\<in>set ?anc. \<not> sel_matches b sel doc q)"
      using s by (auto simp: resolve_parent_def closest_def find_None_iff)
  next
    fix sel assume s: "parentSelector = Some sel \<and> sel \<noteq> []" and m: "sel_matches b sel doc r"
    obtain xs where "?anc = r # xs" using ne sh(1) by (cases ?anc) auto
    then show "resolve_parent b parentSelector r doc = Some r"
      using s m by (simp add: resolve_parent_def closest_def)
  qed
  have 3: "\<not> truthy parentSelector \<longrightarrow>
             (\<forall>p. resolve_parent b parentSelector r doc = Some p \<longleftrightarrow>
                (1 < length ?anc \<and> ?anc ! 1 = p))
           \<and> (\<forall>p. resolve_parent b parentSelector r doc = Some p \<longrightarrow> child_of doc r p)"
  proof (intro impI conjI allI)
    fix p assume t: "\<not> truthy parentSelector"
    then have rp: "resolve_parent b parentSelector r doc = parentElement r doc"
      by (auto simp: resolve_parent_def truthy_def split: option.splits)
    show "resolve_parent b parentSelector r doc = Some p \<longleftrightarrow> (1 < length ?anc \<and> ?anc ! 1 = p)"
      unfolding rp parentElement_def by (auto split: list.splits)
    assume "resolve_parent b parentSelector r doc = Some p"
    then obtain xs where a: "?anc = r # p # xs"
      using rp sh(1) unfolding parentElement_def by (auto split: list.splits)
    then show "child_of doc r p" using sh(2) by simp
  qed
  show ?thesis using 1 sh 2 3 by blast
qed

theorem ancestor_resolution_witness:
  "lookup 11 (post [(''datetime'', ''2025-12-09'')] ''December 9, 2025'') =
     Some (Elem 11 (html_name ''time'') [(''datetime'', ''2025-12-09'')] [Text ''December 9, 2025''])
   \<and> resolve_dateValue (browser_at 0)
       (Elem 11 (html_name ''time'') [(''datetime'', ''2025-12-09'')] [Text ''December 9, 2025'']) =
     Some ''2025-12-09''
   \<and> annotate (browser_at 0) (Some ''.post-date'') 11
       (post [(''datetime'', ''2025-12-09'')] ''December 9, 2025'') =
     Elem 10 (html_name ''div'')
       [(''class'', ''post-date''), (''data-date'', ''2025-12-09''), (''data-year'', ''2025''),
        (''data-month'', ''12''), (''data-day'', ''9'')]
       [Elem 11 (html_name ''time'') [(''datetime'', ''2025-12-09'')] [Text ''December 9, 2025'']]
   \<and> annotate (browser_at 0) (Some ''time'') 11
       (post [(''datetime'', ''2025-12-09'')] ''December 9, 2025'') =
     Elem 10 (html_name ''div'') [(''class'', ''post-date'')]
       [Elem 11 (html_name ''time'')
          [(''datetime'', ''2025-12-09''), (''data-date'', ''2025-12-09''),
           (''data-year'', ''2025''), (''data-month'', ''12''), (''data-day'', ''9'')]
          [Text ''December 9, 2025'']]
   \<and> annotate (browser_at 0) None 11
       (post [(''datetime'', ''2025-12-09'')] ''December 9, 2025'') =
     Elem 10 (html_name ''div'')
       [(''class'', ''post-date''), (''data-date'', ''2025-12-09''), (''data-year'', ''2025''),
        (''data-month'', ''12''), (''data-day'', ''9'')]
       [Elem 11 (html_name ''time'') [(''datetime'', ''2025-12-09'')] [Text ''December 9, 2025'']]
   \<and> lookup 10 (post [(''datetime'', ''2025-12-09'')] ''December 9, 2025'') =
       Some (post [(''datetime'', ''2025-12-09'')] ''December 9, 2025'')
   \<and> resolve_dateValue (browser_at 0)
       (post [(''datetime'', ''2025-12-09'')] ''December 9, 2025'') = Some ''2025-12-09''
   \<and> annotate (browser_at 0) None 10
       (post [(''datetime'', ''2025-12-09'')] ''December 9, 2025'') =
     post [(''datetime'', ''2025-12-09'')] ''December 9, 2025''"
proof -
  note t = ancestor_resolution [OF sample_post_lookup sample_post_dateValue, THEN conjunct1]
  note u = ancestor_resolution [OF sample_post_root_lookup sample_post_root_dateValue,
      THEN conjunct1]
  have 1: "annotate (browser_at 0) (Some ''.post-date'') 11
       (post [(''datetime'', ''2025-12-09'')] ''December 9, 2025'') =
     Elem 10 (html_name ''div'')
       [(''class'', ''post-date''), (''data-date'', ''2025-12-09''), (''data-year'', ''2025''),
        (''data-month'', ''12''), (''data-day'', ''9'')]
       [Elem 11 (html_name ''time'') [(''datetime'', ''2025-12-09'')] [Text ''December 9, 2025'']]"
    unfolding t sample_post_parents by (simp add: write_attributes_utc post_def setAttribute_def)
  have 2: "annotate (browser_at 0) (Some ''time'') 11
       (post [(''datetime'', ''2025-12-09'')] ''December 9, 2025'') =
     Elem 10 (html_name ''div'') [(''class'', ''post-date'')]
       [Elem 11 (html_name ''time'')
          [(''datetime'', ''2025-12-09''), (''data-date'', ''2025-12-09''),
           (''data-year'', ''2025''), (''data-month'', ''12''), (''data-day'', ''9'')]
          [Text ''December 9, 2025'']]"
    unfolding t sample_post_parents by (simp add: write_attributes_utc post_def setAttribute_def)
  have 3: "annotate (browser_at 0) None 11
       (post [(''datetime'', ''2025-12-09'')] ''December 9, 2025'') =
     Elem 10 (html_name ''div'')
       [(''class'', ''post-date''), (''data-date'', ''2025-12-09''), (''data-year'', ''2025''),
        (''data-month'', ''12''), (''data-day'', ''9'')]
       [Elem 11 (html_name ''time'') [(''datetime'', ''2025-12-09'')] [Text ''December 9, 2025'']]"
    unfolding t sample_post_parents by (simp add: write_attributes_utc post_def setAttribute_def)
  have 4: "annotate (browser_at 0) None 10
       (post [(''datetime'', ''2025-12-09'')] ''December 9, 2025'') =
     post [(''datetime'', ''2025-12-09'')] ''December 9, 2025''"
    unfolding u sample_post_parents by simp
  show ?thesis
    using sample_post_lookup sample_post_dateValue sample_post_root_lookup
      sample_post_root_dateValue 1 2 3 4
    by blast
qed

text \<open>
  C6 (amended).  When no selector is configured, or the configured one matches the same
  elements whatever the four attributes of the annotator hold, a second run of the
  annotator leaves the document of the first run as it is.
\<close>

theorem annotator_idempotent:
  assumes "selector_ignores_annotations b parentSelector"
  shows "addDateDataAttributes b parentSelector (addDateDataAttributes b parentSelector doc) =
         addDateDataAttributes b parentSelector doc"
proof -
  have ig: "\<forall>sel. parentSelector = Some sel \<and> sel \<noteq> [] \<longrightarrow> ignores_annotations b sel"
    using assms by (auto simp: selector_ignores_annotations_def)
  let ?pls = "map (\<lambda>r. plan b parentSelector r doc) (time_elements doc)"
  have once: "addDateDataAttributes b parentSelector doc = run_plans b ?pls doc"
    unfolding addDateDataAttributes_def by (rule annotate_loop_plans [OF ig]) simp
  have "addDateDataAttributes b parentSelector (run_plans b ?pls doc) =
        run_plans b ?pls (run_plans b ?pls doc)"
    unfolding addDateDataAttributes_def time_elements_run_plans
    by (rule annotate_loop_plans [OF ig]) (simp add: plan_run_plans [OF ig])
  then show ?thesis by (simp add: once run_plans_idem)
qed

theorem annotator_idempotent_witness:
  "selector_ignores_annotations (browser_at 0) (Some ''.post-date'')
   \<and> addDateDataAttributes (browser_at 0) (Some ''.post-date'')
       (addDateDataAttributes (browser_at 0) (Some ''.post-date'')
          (post [(''datetime'', ''2025-12-09'')] ''December 9, 2025'')) =
     Elem 10 (html_name ''div'')
       [(''class'', ''post-date''), (''data-date'', ''2025-12-09''),
        (''data-year'', ''2025''), (''data-month'', ''12''), (''data-day'', ''9'')]
       [Elem 11 (html_name ''time'') [(''datetime'', ''2025-12-09'')] [Text ''December 9, 2025'']]
   \<and> selector_ignores_annotations (browser_at 0) None
   \<and> addDateDataAttributes (browser_at 0) None
       (addDateDataAttributes (browser_at 0) None
          (post [(''datetime'', ''2025-12-09'')] ''December 9, 2025'')) =
     Elem 10 (html_name ''div'')
       [(''class'', ''post-date''), (''data-date'', ''2025-12-09''),
        (''data-year'', ''2025''), (''data-month'', ''12''), (''data-day'', ''9'')]
       [Elem 11 (html_name ''time'') [(''datetime'', ''2025-12-09'')] [Text ''December 9, 2025'']]"
proof -
  have h: "selector_ignores_annotations (browser_at 0) (Some ''.post-date'')"
    by (simp add: selector_ignores_annotations_def sample_post_date_ignores)
  have n: "selector_ignores_annotations (browser_at 0) None"
    by (simp add: selector_ignores_annotations_def)
  have o: "addDateDataAttributes (browser_at 0) None
       (post [(''datetime'', ''2025-12-09'')] ''December 9, 2025'') =
     Elem 10 (html_name ''div'')
       [(''class'', ''post-date''), (''data-date'', ''2025-12-09''),
        (''data-year'', ''2025''), (''data-month'', ''12''), (''data-day'', ''9'')]
       [Elem 11 (html_name ''time'') [(''datetime'', ''2025-12-09'')] [Text ''December 9, 2025'']]"
    by (simp add: annotator_run write_attributes_utc)
  have 1: "addDateDataAttributes (browser_at 0) (Some ''.post-date'')
       (addDateDataAttributes (browser_at 0) (Some ''.post-date'')
          (post [(''datetime'', ''2025-12-09'')] ''December 9, 2025'')) =
     addDateDataAttributes (browser_at 0) (Some ''.post-date'')
          (post [(''datetime'', ''2025-12-09'')] ''December 9, 2025'')"
    by (rule annotator_idempotent [OF h])
  have 2: "addDateDataAttributes (browser_at 0) None
       (addDateDataAttributes (browser_at 0) None
          (post [(''datetime'', ''2025-12-09'')] ''December 9, 2025'')) =
     addDateDataAttributes (browser_at 0) None
          (post [(''datetime'', ''2025-12-09'')] ''December 9, 2025'')"
    by (rule annotator_idempotent [OF n])
  show ?thesis
    using h n 1 2
    unfolding annotate_once_post_date o by simp
qed

text \<open>
  Without the condition on the selector the second run can write more than the first:
  with \<open>:not([data-date])\<close> the first run finds the time element itself, which then
  has the attribute, and the second run goes on to the element above it.
\<close>

theorem annotator_twice_differs:
  "addDateDataAttributes (browser_at 0) (Some '':not([data-date])'')
     (addDateDataAttributes (browser_at 0) (Some '':not([data-date])'')
        (post [(''datetime'', ''2025-12-09'')] ''December 9, 2025'')) \<noteq>
   addDateDataAttributes (browser_at 0) (Some '':not([data-date])'')
     (post [(''datetime'', ''2025-12-09'')] ''December 9, 2025'')"
  unfolding annotate_once_not annotate_twice_not by simp

text \<open>
  C10.  A time element whose \<open>datetime\<close> attribute is the empty string gets the date
  value that its trimmed text gives, as an element without the attribute does; the
  value is never the empty string, and the element is skipped only if the text is not
  a date.
\<close>

theorem empty_datetime_falls_back_to_text:
  assumes "getAttribute (Elem i n a ks) ''datetime'' = Some []"
  shows "resolve_dateValue b (Elem i n a ks) =
           (case new_Date b (trim (textContent (Elem i n a ks))) of
              None \<Rightarrow> None
            | Some t \<Rightarrow> Some (split_T_first (toISOString t)))
         \<and> resolve_dateValue b (Elem i n a ks) \<noteq> Some []
         \<and> resolve_dateValue b (Elem i n a ks) =
             resolve_dateValue b (Elem i n (AList.delete ''datetime'' a) ks)"
  using assms iso_date_nonempty
  by (auto simp: resolve_dateValue_def truthy_def getAttribute_def delete_conv
           split: option.splits)

theorem empty_datetime_falls_back_to_text_witness:
  "getAttribute (Elem 11 (html_name ''time'') [(''datetime'', [])] [Text ''December 9, 2025''])
     ''datetime'' = Some []
   \<and> resolve_dateValue (browser_at 0)
       (Elem 11 (html_name ''time'') [(''datetime'', [])] [Text ''December 9, 2025'']) = Some ''2025-12-09''"
proof -
  have h: "getAttribute (Elem 11 (html_name ''time'') [(''datetime'', [])] [Text ''December 9, 2025''])
     ''datetime'' = Some []"
    by (simp add: getAttribute_def)
  have t: "trim ''December 9, 2025'' = ''December 9, 2025''"
    by (simp add: trim_def is_space_def)
  show ?thesis
    using h empty_datetime_falls_back_to_text [OF h, of "browser_at 0"]
    by (simp add: t new_Date_sample toISOString_1765238400000)
qed


section \<open>The formatter\<close>

lemma WeekDay_2025_12_09:
  assumes "YearFromTime l = 2025" "MonthFromTime l = 11" "DateFromTime l = 9"
  shows "WeekDay l = 2"
proof -
  have "InLeapYear l = 0" using assms(1) by (simp add: InLeapYear_def DaysInYear_def)
  then have "DayWithinYear l = 342"
    using assms(2,3) by (simp add: DateFromTime_def Let_def)
  then have "Day l = 20431"
    using assms(1) by (simp add: DayWithinYear_def DayFromYear_def)
  then show ?thesis by (simp add: WeekDay_def)
qed

lemma tokens_2025_12_09:
  assumes "YearFromTime (LocalTime b t) = 2025" "MonthFromTime (LocalTime b t) = 11"
    "DateFromTime (LocalTime b t) = 9"
  shows "tokens b t =
     [(''YYYY'', ''2025'', ''year-full''), (''YY'', ''25'', ''year-short''),
      (''MMMM'', ''December'', ''month-long''), (''MMM'', ''Dec'', ''month-short''),
      (''MM'', ''12'', ''month-numeric''), (''M'', ''12'', ''month-numeric''),
      (''dddd'', ''Tuesday'', ''weekday-long''), (''ddd'', ''Tue'', ''weekday-short''),
      (''DD'', ''09'', ''day-numeric''), (''D'', ''9'', ''day-numeric'')]"
  using assms WeekDay_2025_12_09 [OF assms]
  by (simp add: tokens_def Let_def int_string_samples slice_last2_def padStart_def
      month_long_def month_short_def weekday_long_def weekday_short_def)

lemma one_pass_ymd:
  assumes "YearFromTime (LocalTime b t) = 2025" "MonthFromTime (LocalTime b t) = 11"
    "DateFromTime (LocalTime b t) = 9"
  shows \<open>one_pass (tokens b t) ''YYYY-MM-DD'' =
     ''<span class="year-full">2025</span>-<span class="month-numeric">12</span>-<span class="day-numeric">09</span>''\<close>
  unfolding tokens_2025_12_09 [OF assms]
  by (simp add: one_pass_def is_word_def wrapped_def)

lemma one_pass_long:
  assumes "YearFromTime (LocalTime b t) = 2025" "MonthFromTime (LocalTime b t) = 11"
    "DateFromTime (LocalTime b t) = 9"
  shows \<open>one_pass (tokens b t) ''dddd, MMMM D, YYYY'' =
     ''<span class="weekday-long">Tuesday</span>, <span class="month-long">December</span> <span class="day-numeric">9</span>, <span class="year-full">2025</span>''\<close>
  unfolding tokens_2025_12_09 [OF assms]
  by (simp add: one_pass_def is_word_def wrapped_def)

lemma sorted_by_length:
  "sorted_wrt (\<lambda>k k'. length k' \<le> length k)
     [''YYYY'', ''MMMM'', ''dddd'', ''MMM'', ''ddd'', ''YY'', ''MM'', ''DD'', ''M'', ''D'']"
  by simp

text \<open>
  C3.  The codes are applied from the longest to the shortest, each to whole words
  only; the result is the template with every maximal word that is a code replaced by
  the span of that code, and everything else kept.  So a code is never replaced in
  part by a shorter one.  For the ninth of December 2025, \<open>YYYY-MM-DD\<close> gives the
  three spans 2025, 12 and 09.
\<close>

theorem token_substitution_whole_tokens:
  \<open>format_template b t fmt = one_pass (tokens b t) fmt
   \<and> sortedTokens (tokens b t) =
       [''YYYY'', ''MMMM'', ''dddd'', ''MMM'', ''ddd'', ''YY'', ''MM'', ''DD'', ''M'', ''D'']
   \<and> sorted_wrt (\<lambda>k k'. length k' \<le> length k) (sortedTokens (tokens b t))
   \<and> (YearFromTime (LocalTime b t) = 2025 \<and> MonthFromTime (LocalTime b t) = 11
        \<and> DateFromTime (LocalTime b t) = 9 \<longrightarrow>
      format_template b t ''YYYY-MM-DD'' =
        ''<span class="year-full">2025</span>-<span class="month-numeric">12</span>-<span class="day-numeric">09</span>'')\<close>
  using sorted_by_length
  by (simp add: format_template_one_pass sortedTokens_codes one_pass_ymd)

theorem token_substitution_whole_tokens_witness:
  \<open>YearFromTime (LocalTime (browser_at 0) 1765238400000) = 2025
   \<and> MonthFromTime (LocalTime (browser_at 0) 1765238400000) = 11
   \<and> DateFromTime (LocalTime (browser_at 0) 1765238400000) = 9
   \<and> format_template (browser_at 0) 1765238400000 ''YYYY-MM-DD'' =
        ''<span class="year-full">2025</span>-<span class="month-numeric">12</span>-<span class="day-numeric">09</span>''\<close>
proof -
  have h: "YearFromTime (LocalTime (browser_at 0) 1765238400000) = 2025
     \<and> MonthFromTime (LocalTime (browser_at 0) 1765238400000) = 11
     \<and> DateFromTime (LocalTime (browser_at 0) 1765238400000) = 9"
    by (simp add: LocalTime_browser_at date_1765238400000)
  show ?thesis
    using h token_substitution_whole_tokens [of "browser_at 0" 1765238400000 "[]"]
    by blast
qed

lemma sample_page_lookup:
  "lookup_page 11 sample_page = Some (Elem 11 (html_name ''time'') [] [Text ''December 9, 2025''])"
  by (simp add: sample_page_def lookup_page_def all_elements_def post_def)

lemma sample_page_date:
  "new_Date (browser_at 0) (trim (textContent (Elem 11 (html_name ''time'') [] [Text ''December 9, 2025''])))
     = Some 1765238400000"
  by (simp add: trim_sample new_Date_sample)


lemma tagName_time: "tagName (browser_at offset) (Elem i (html_name ''time'') a ks) = ''TIME''"
  by (simp add: tagName_def upper_def browser_at_def)

lemma tagName_other_namespace:
  "namespaceURI q \<noteq> Some html_namespace \<Longrightarrow> tagName b (Elem i q a ks) = qualifiedName q"
  by (simp add: tagName_def)

lemma trim_samples:
  "trim ''Tuesday, December 9, 2025'' = ''Tuesday, December 9, 2025''"
  "trim ''2025-12-09'' = ''2025-12-09''"
  by (simp_all add: trim_def is_space_def)

lemma parse_html_browser_at: "parse_html (browser_at offset) = sample_fragment"
  by (simp add: browser_at_def)

lemma sample_spans_long:
  \<open>sample_fragment ''<span class="pretty-date"><span class="weekday-long">Tuesday</span>, <span class="month-long">December</span> <span class="day-numeric">9</span>, <span class="year-full">2025</span></span>'' n =
  [Elem n (html_name ''span'') [(''class'', ''pretty-date'')]
    [Elem (n + 1) (html_name ''span'') [(''class'', ''weekday-long'')] [Text ''Tuesday''],
     Text '', '',
     Elem (n + 2) (html_name ''span'') [(''class'', ''month-long'')] [Text ''December''],
     Text '' '', Elem (n + 3) (html_name ''span'') [(''class'', ''day-numeric'')] [Text ''9''],
     Text '', '', Elem (n + 4) (html_name ''span'') [(''class'', ''year-full'')] [Text ''2025'']]]\<close>
  by (simp add: sample_fragment_def add_text_def close_top_def tag_attrs_def)

lemma sample_spans_iso:
  \<open>sample_fragment ''<span class="iso-date"><span class="year-full">2025</span>-<span class="month-numeric">12</span>-<span class="day-numeric">09</span></span>'' n =
  [Elem n (html_name ''span'') [(''class'', ''iso-date'')]
    [Elem (n + 1) (html_name ''span'') [(''class'', ''year-full'')] [Text ''2025''],
     Text ''-'',
     Elem (n + 2) (html_name ''span'') [(''class'', ''month-numeric'')] [Text ''12''],
     Text ''-'',
     Elem (n + 3) (html_name ''span'') [(''class'', ''day-numeric'')] [Text ''09'']]]\<close>
  by (simp add: sample_fragment_def add_text_def close_top_def tag_attrs_def)

lemma sample_step:
  assumes "new_Date (browser_at offset) (trim (concat (map textContent ks))) = Some t"
    and "split_T_first (toISOString t) = d"
    and "map (map_attrs 11 (AList.update ''datetime'' d)) ks = ks"
    and "fresh \<lparr>document = Elem 10 (html_name ''div'') c
                   [Elem 11 (html_name ''time'') (AList.update ''datetime'' d a) ks],
                 detached = []\<rparr> = n"
    and "sample_fragment (markup (browser_at offset) (name cfg) (format cfg) t) n = new"
  shows "format_element (browser_at offset) cfg 11
           \<lparr>document = Elem 10 (html_name ''div'') c [Elem 11 (html_name ''time'') a ks],
            detached = []\<rparr> =
         \<lparr>document = Elem 10 (html_name ''div'') c
            [Elem 11 (html_name ''time'') (AList.update ''datetime'' d a) new],
          detached = filter is_element ks\<rparr>"
proof -
  let ?pg = "\<lparr>document = Elem 10 (html_name ''div'') c [Elem 11 (html_name ''time'') a ks],
            detached = []\<rparr>"
  have l: "lookup_page 11 ?pg = Some (Elem 11 (html_name ''time'') a ks)"
    by (simp add: lookup_page_def all_elements_def)
  have p: "new_Date (browser_at offset) (trim (textContent (Elem 11 (html_name ''time'') a ks)))
            = Some t"
    using assms(1) by simp
  have s: "set_attribute_page 11 ''datetime'' d ?pg =
      \<lparr>document = Elem 10 (html_name ''div'') c
                   [Elem 11 (html_name ''time'') (AList.update ''datetime'' d a) ks],
       detached = []\<rparr>"
    by (simp add: set_attribute_page_def setAttribute_def assms(3))
  have l': "lookup_page 11 \<lparr>document = Elem 10 (html_name ''div'') c
                   [Elem 11 (html_name ''time'') (AList.update ''datetime'' d a) ks],
       detached = []\<rparr> = Some (Elem 11 (html_name ''time'') (AList.update ''datetime'' d a) ks)"
    by (simp add: lookup_page_def all_elements_def)
  show ?thesis
    unfolding format_element_parsed [OF l p] tagName_time assms(2) 
    by (simp add: s set_innerHTML_def l' assms(4,5) parse_html_browser_at)
qed

lemma sample_local_date_at:
  "YearFromTime (LocalTime (browser_at offset) (1765238400000 - offset)) = 2025"
  "MonthFromTime (LocalTime (browser_at offset) (1765238400000 - offset)) = 11"
  "DateFromTime (LocalTime (browser_at offset) (1765238400000 - offset)) = 9"
  by (simp_all add: LocalTime_browser_at date_1765238400000)

lemma sample_markup_long:
  \<open>markup (browser_at offset) ''pretty-date'' ''dddd, MMMM D, YYYY'' (1765238400000 - offset) =
     ''<span class="pretty-date"><span class="weekday-long">Tuesday</span>, <span class="month-long">December</span> <span class="day-numeric">9</span>, <span class="year-full">2025</span></span>''\<close>
  by (simp add: markup_def format_template_one_pass one_pass_long [OF sample_local_date_at])

lemma sample_markup_iso:
  \<open>markup (browser_at offset) ''iso-date'' ''YYYY-MM-DD'' (1765238400000 - offset) =
     ''<span class="iso-date"><span class="year-full">2025</span>-<span class="month-numeric">12</span>-<span class="day-numeric">09</span></span>''\<close>
  by (simp add: markup_def format_template_one_pass one_pass_ymd [OF sample_local_date_at])

lemma sample_configs:
  "selector sample_config = ''time''" "name sample_config = ''pretty-date''"
  "format sample_config = ''dddd, MMMM D, YYYY''"
  "selector iso_config = ''time''" "name iso_config = ''iso-date''"
  "format iso_config = ''YYYY-MM-DD''"
  by (simp_all add: sample_config_def iso_config_def)

lemma sample_long_first:
  "format_element (browser_at offset) sample_config 11 sample_page =
     \<lparr>document = Elem 10 (html_name ''div'') [(''class'', ''post-date'')]
        [Elem 11 (html_name ''time'')
           [(''datetime'', split_T_first (toISOString (1765238400000 - offset)))]
          [Elem 12 (html_name ''span'') [(''class'', ''pretty-date'')]
            [Elem 13 (html_name ''span'') [(''class'', ''weekday-long'')] [Text ''Tuesday''],
             Text '', '',
             Elem 14 (html_name ''span'') [(''class'', ''month-long'')] [Text ''December''],
             Text '' '',
             Elem 15 (html_name ''span'') [(''class'', ''day-numeric'')] [Text ''9''],
             Text '', '',
             Elem 16 (html_name ''span'') [(''class'', ''year-full'')] [Text ''2025'']]]],
      detached = []\<rparr>"
  unfolding sample_page_def post_def
  by (subst sample_step [where t = "1765238400000 - offset" and n = 12, OF _ refl])
     (simp_all add: trim_sample new_Date_sample setAttribute_def fresh_def all_elements_def
        sample_configs sample_markup_long sample_spans_long is_element_def)

lemma sample_iso_first:
  "format_element (browser_at 0) iso_config 11 sample_page =
     \<lparr>document = Elem 10 (html_name ''div'') [(''class'', ''post-date'')]
        [Elem 11 (html_name ''time'') [(''datetime'', ''2025-12-09'')]
          [Elem 12 (html_name ''span'') [(''class'', ''iso-date'')]
            [Elem 13 (html_name ''span'') [(''class'', ''year-full'')] [Text ''2025''],
             Text ''-'',
             Elem 14 (html_name ''span'') [(''class'', ''month-numeric'')] [Text ''12''],
             Text ''-'',
             Elem 15 (html_name ''span'') [(''class'', ''day-numeric'')] [Text ''09'']]]],
      detached = []\<rparr>"
  unfolding sample_page_def post_def
  by (subst sample_step [where t = "1765238400000 - 0" and n = 12, OF _ refl])
     (simp_all add: trim_sample new_Date_sample setAttribute_def fresh_def all_elements_def
        sample_configs sample_markup_iso [of 0, simplified] sample_spans_iso is_element_def
        toISOString_1765238400000)

lemma sample_iso_second:
  "format_element (browser_at 0) iso_config 11
     \<lparr>document = Elem 10 (html_name ''div'') [(''class'', ''post-date'')]
        [Elem 11 (html_name ''time'') [(''datetime'', ''2025-12-09'')]
          [Elem 12 (html_name ''span'') [(''class'', ''pretty-date'')]
            [Elem 13 (html_name ''span'') [(''class'', ''weekday-long'')] [Text ''Tuesday''],
             Text '', '',
             Elem 14 (html_name ''span'') [(''class'', ''month-long'')] [Text ''December''],
             Text '' '',
             Elem 15 (html_name ''span'') [(''class'', ''day-numeric'')] [Text ''9''],
             Text '', '',
             Elem 16 (html_name ''span'') [(''class'', ''year-full'')] [Text ''2025'']]]],
      detached = []\<rparr> =
     \<lparr>document = Elem 10 (html_name ''div'') [(''class'', ''post-date'')]
        [Elem 11 (html_name ''time'') [(''datetime'', ''2025-12-09'')]
          [Elem 17 (html_name ''span'') [(''class'', ''iso-date'')]
            [Elem 18 (html_name ''span'') [(''class'', ''year-full'')] [Text ''2025''],
             Text ''-'',
             Elem 19 (html_name ''span'') [(''class'', ''month-numeric'')] [Text ''12''],
             Text ''-'',
             Elem 20 (html_name ''span'') [(''class'', ''day-numeric'')] [Text ''09'']]]],
      detached =
        [Elem 12 (html_name ''span'') [(''class'', ''pretty-date'')]
            [Elem 13 (html_name ''span'') [(''class'', ''weekday-long'')] [Text ''Tuesday''],
             Text '', '',
             Elem 14 (html_name ''span'') [(''class'', ''month-long'')] [Text ''December''],
             Text '' '',
             Elem 15 (html_name ''span'') [(''class'', ''day-numeric'')] [Text ''9''],
             Text '', '',
             Elem 16 (html_name ''span'') [(''class'', ''year-full'')] [Text ''2025'']]]\<rparr>"
  by (subst sample_step [where t = "1765238400000 - 0" and n = 17, OF _ refl])
     (simp_all add: trim_samples new_Date_sample_weekday setAttribute_def fresh_def
        all_elements_def sample_configs sample_markup_iso [of 0, simplified] sample_spans_iso is_element_def
        toISOString_1765238400000)

lemma sample_long_second:
  "format_element (browser_at 0) sample_config 11
     \<lparr>document = Elem 10 (html_name ''div'') [(''class'', ''post-date'')]
        [Elem 11 (html_name ''time'') [(''datetime'', ''2025-12-09'')]
          [Elem 12 (html_name ''span'') [(''class'', ''iso-date'')]
            [Elem 13 (html_name ''span'') [(''class'', ''year-full'')] [Text ''2025''],
             Text ''-'',
             Elem 14 (html_name ''span'') [(''class'', ''month-numeric'')] [Text ''12''],
             Text ''-'',
             Elem 15 (html_name ''span'') [(''class'', ''day-numeric'')] [Text ''09'']]]],
      detached = []\<rparr> =
     \<lparr>document = Elem 10 (html_name ''div'') [(''class'', ''post-date'')]
        [Elem 11 (html_name ''time'') [(''datetime'', ''2025-12-09'')]
          [Elem 16 (html_name ''span'') [(''class'', ''pretty-date'')]
            [Elem 17 (html_name ''span'') [(''class'', ''weekday-long'')] [Text ''Tuesday''],
             Text '', '',
             Elem 18 (html_name ''span'') [(''class'', ''month-long'')] [Text ''December''],
             Text '' '',
             Elem 19 (html_name ''span'') [(''class'', ''day-numeric'')] [Text ''9''],
             Text '', '',
             Elem 20 (html_name ''span'') [(''class'', ''year-full'')] [Text ''2025'']]]],
      detached =
        [Elem 12 (html_name ''span'') [(''class'', ''iso-date'')]
            [Elem 13 (html_name ''span'') [(''class'', ''year-full'')] [Text ''2025''],
             Text ''-'',
             Elem 14 (html_name ''span'') [(''class'', ''month-numeric'')] [Text ''12''],
             Text ''-'',
             Elem 15 (html_name ''span'') [(''class'', ''day-numeric'')] [Text ''09'']]]\<rparr>"
  by (subst sample_step [where t = "1765238400000 - 0" and n = 16, OF _ refl])
     (simp_all add: trim_samples new_Date_2025_12_09 setAttribute_def fresh_def
        all_elements_def sample_configs sample_markup_long [of 0, simplified]
        sample_spans_long is_element_def toISOString_1765238400000)

lemma sample_queries:
  "querySelectorAll (browser_at offset) ''time'' (document sample_page) = [11]"
  "querySelectorAll (browser_at offset) ''time''
     (Elem 10 (html_name ''div'') [(''class'', ''post-date'')]
        [Elem 11 (html_name ''time'') a
          [Elem 12 (html_name ''span'') c
            [Elem 13 (html_name ''span'') c1 [Text t1], Text s1,
             Elem 14 (html_name ''span'') c2 [Text t2], Text s2,
             Elem 15 (html_name ''span'') c3 [Text t3]]]]) = [11]"
  "querySelectorAll (browser_at offset) ''time''
     (Elem 10 (html_name ''div'') [(''class'', ''post-date'')]
        [Elem 11 (html_name ''time'') a
          [Elem 12 (html_name ''span'') c
            [Elem 13 (html_name ''span'') c1 [Text t1], Text s1,
             Elem 14 (html_name ''span'') c2 [Text t2], Text s2,
             Elem 15 (html_name ''span'') c3 [Text t3], Text s3,
             Elem 16 (html_name ''span'') c4 [Text t4]]]]) = [11]"
  by (simp_all add: querySelectorAll_def sel_matches_browser_at sample_matches_def lookup_def
      sample_page_def post_def)

lemma sample_with_datetime:
  "set_attribute_page 11 ''datetime'' ''2025-12-09'' sample_page =
     \<lparr>document = post [(''datetime'', ''2025-12-09'')] ''December 9, 2025'', detached = []\<rparr>"
  by (simp add: set_attribute_page_def sample_page_def post_def setAttribute_def)

lemma sample_with_datetime_fresh:
  "fresh \<lparr>document = post [(''datetime'', ''2025-12-09'')] ''December 9, 2025'', detached = []\<rparr>
     = 12"
  by (simp add: fresh_def all_elements_def post_def)


lemma formatDate_long_first:
  "formatDate (browser_at offset) sample_config sample_page =
     \<lparr>document = Elem 10 (html_name ''div'') [(''class'', ''post-date'')]
        [Elem 11 (html_name ''time'')
           [(''datetime'', split_T_first (toISOString (1765238400000 - offset)))]
          [Elem 12 (html_name ''span'') [(''class'', ''pretty-date'')]
            [Elem 13 (html_name ''span'') [(''class'', ''weekday-long'')] [Text ''Tuesday''],
             Text '', '',
             Elem 14 (html_name ''span'') [(''class'', ''month-long'')] [Text ''December''],
             Text '' '',
             Elem 15 (html_name ''span'') [(''class'', ''day-numeric'')] [Text ''9''],
             Text '', '',
             Elem 16 (html_name ''span'') [(''class'', ''year-full'')] [Text ''2025'']]]],
      detached = []\<rparr>"
  by (simp add: formatDate_def sample_configs sample_queries sample_long_first)

lemma formatDate_iso_first:
  "formatDate (browser_at 0) iso_config sample_page =
     \<lparr>document = Elem 10 (html_name ''div'') [(''class'', ''post-date'')]
        [Elem 11 (html_name ''time'') [(''datetime'', ''2025-12-09'')]
          [Elem 12 (html_name ''span'') [(''class'', ''iso-date'')]
            [Elem 13 (html_name ''span'') [(''class'', ''year-full'')] [Text ''2025''],
             Text ''-'',
             Elem 14 (html_name ''span'') [(''class'', ''month-numeric'')] [Text ''12''],
             Text ''-'',
             Elem 15 (html_name ''span'') [(''class'', ''day-numeric'')] [Text ''09'']]]],
      detached = []\<rparr>"
  by (simp add: formatDate_def sample_configs sample_queries sample_iso_first)

lemma formatDate_iso_second:
  "formatDate (browser_at 0) iso_config
     \<lparr>document = Elem 10 (html_name ''div'') [(''class'', ''post-date'')]
        [Elem 11 (html_name ''time'') [(''datetime'', ''2025-12-09'')]
          [Elem 12 (html_name ''span'') [(''class'', ''pretty-date'')]
            [Elem 13 (html_name ''span'') [(''class'', ''weekday-long'')] [Text ''Tuesday''],
             Text '', '',
             Elem 14 (html_name ''span'') [(''class'', ''month-long'')] [Text ''December''],
             Text '' '',
             Elem 15 (html_name ''span'') [(''class'', ''day-numeric'')] [Text ''9''],
             Text '', '',
             Elem 16 (html_name ''span'') [(''class'', ''year-full'')] [Text ''2025'']]]],
      detached = []\<rparr> =
     \<lparr>document = Elem 10 (html_name ''div'') [(''class'', ''post-date'')]
        [Elem 11 (html_name ''time'') [(''datetime'', ''2025-12-09'')]
          [Elem 17 (html_name ''span'') [(''class'', ''iso-date'')]
            [Elem 18 (html_name ''span'') [(''class'', ''year-full'')] [Text ''2025''],
             Text ''-'',
             Elem 19 (html_name ''span'') [(''class'', ''month-numeric'')] [Text ''12''],
             Text ''-'',
             Elem 20 (html_name ''span'') [(''class'', ''day-numeric'')] [Text ''09'']]]],
      detached =
        [Elem 12 (html_name ''span'') [(''class'', ''pretty-date'')]
            [Elem 13 (html_name ''span'') [(''class'', ''weekday-long'')] [Text ''Tuesday''],
             Text '', '',
             Elem 14 (html_name ''span'') [(''class'', ''month-long'')] [Text ''December''],
             Text '' '',
             Elem 15 (html_name ''span'') [(''class'', ''day-numeric'')] [Text ''9''],
             Text '', '',
             Elem 16 (html_name ''span'') [(''class'', ''year-full'')] [Text ''2025'']]]\<rparr>"
  by (simp add: formatDate_def sample_configs sample_queries sample_iso_second)

lemma formatDate_long_second:
  "formatDate (browser_at 0) sample_config
     \<lparr>document = Elem 10 (html_name ''div'') [(''class'', ''post-date'')]
        [Elem 11 (html_name ''time'') [(''datetime'', ''2025-12-09'')]
          [Elem 12 (html_name ''span'') [(''class'', ''iso-date'')]
            [Elem 13 (html_name ''span'') [(''class'', ''year-full'')] [Text ''2025''],
             Text ''-'',
             Elem 14 (html_name ''span'') [(''class'', ''month-numeric'')] [Text ''12''],
             Text ''-'',
             Elem 15 (html_name ''span'') [(''class'', ''day-numeric'')] [Text ''09'']]]],
      detached = []\<rparr> =
     \<lparr>document = Elem 10 (html_name ''div'') [(''class'', ''post-date'')]
        [Elem 11 (html_name ''time'') [(''datetime'', ''2025-12-09'')]
          [Elem 16 (html_name ''span'') [(''class'', ''pretty-date'')]
            [Elem 17 (html_name ''span'') [(''class'', ''weekday-long'')] [Text ''Tuesday''],
             Text '', '',
             Elem 18 (html_name ''span'') [(''class'', ''month-long'')] [Text ''December''],
             Text '' '',
             Elem 19 (html_name ''span'') [(''class'', ''day-numeric'')] [Text ''9''],
             Text '', '',
             Elem 20 (html_name ''span'') [(''class'', ''year-full'')] [Text ''2025'']]]],
      detached =
        [Elem 12 (html_name ''span'') [(''class'', ''iso-date'')]
            [Elem 13 (html_name ''span'') [(''class'', ''year-full'')] [Text ''2025''],
             Text ''-'',
             Elem 14 (html_name ''span'') [(''class'', ''month-numeric'')] [Text ''12''],
             Text ''-'',
             Elem 15 (html_name ''span'') [(''class'', ''day-numeric'')] [Text ''09'']]]\<rparr>"
  by (simp add: formatDate_def sample_configs sample_queries sample_long_second)

lemma format_element_step:
  \<open>format_element b c r p =
     (case lookup_page r p of
        None \<Rightarrow> p
      | Some el \<Rightarrow>
          (case new_Date b (trim (textContent el)) of
             None \<Rightarrow> p
           | Some t \<Rightarrow>
               set_innerHTML b r
                 (''<span class="'' @ name c @ ''">'' @ one_pass (tokens b t) (format c)
                    @ ''</span>'')
                 (if tagName b el = ''TIME''
                  then set_attribute_page r ''datetime'' (split_T_first (toISOString t)) p
                  else p)))\<close>
  by (simp add: format_element_def markup_def format_template_one_pass Let_def
           split: option.splits)

lemma formatDate_steps:
  \<open>formatDate b c pg =
     foldl (\<lambda>p r.
         case lookup_page r p of
           None \<Rightarrow> p
         | Some el \<Rightarrow>
             (case new_Date b (trim (textContent el)) of
                None \<Rightarrow> p
              | Some t \<Rightarrow>
                  set_innerHTML b r
                    (''<span class="'' @ name c @ ''">'' @ one_pass (tokens b t) (format c)
                       @ ''</span>'')
                    (if tagName b el = ''TIME''
                     then set_attribute_page r ''datetime'' (split_T_first (toISOString t)) p
                     else p)))
       pg (querySelectorAll b (selector c) (document pg))\<close>
  unfolding formatDate_def format_element_step ..



text \<open>
  C8 (the code departs from the claim).  In a time zone one hour ahead of UTC, the
  \<open>time\<close> element that shows \<open>December 9, 2025\<close>: the text is read as midnight of
  the ninth in local time, and the attribute \<open>datetime\<close> is the date of that moment
  in UTC, the eighth, while the day written into the content is the local one, 9.
\<close>

theorem formatter_datetime_day_before:
  "formatDate (browser_at 3600000) sample_config sample_page =
     \<lparr>document = Elem 10 (html_name ''div'') [(''class'', ''post-date'')]
        [Elem 11 (html_name ''time'') [(''datetime'', ''2025-12-08'')]
          [Elem 12 (html_name ''span'') [(''class'', ''pretty-date'')]
            [Elem 13 (html_name ''span'') [(''class'', ''weekday-long'')] [Text ''Tuesday''],
             Text '', '',
             Elem 14 (html_name ''span'') [(''class'', ''month-long'')] [Text ''December''],
             Text '' '',
             Elem 15 (html_name ''span'') [(''class'', ''day-numeric'')] [Text ''9''],
             Text '', '',
             Elem 16 (html_name ''span'') [(''class'', ''year-full'')] [Text ''2025'']]]],
      detached = []\<rparr>"
  by (simp add: formatDate_long_first toISOString_1765234800000)

text \<open>
  C7.  An element whose trimmed text is not a date is left as it is by the formatter:
  the page (content and attributes of every element) is unchanged, and the loop goes
  on with the elements that follow.
\<close>

theorem formatter_skips_unparseable:
  assumes "lookup_page r pg = Some el" and "new_Date b (trim (textContent el)) = None"
  shows "format_element b cfg r pg = pg \<and>
         foldl (\<lambda>p x. format_element b cfg x p) pg (r # rs) =
           foldl (\<lambda>p x. format_element b cfg x p) pg rs"
  using assms by (simp add: format_element_def)

theorem formatter_skips_unparseable_witness:
  "lookup_page 11 \<lparr>document = post [] ''TBD'', detached = []\<rparr>
     = Some (Elem 11 (html_name ''time'') [] [Text ''TBD''])
   \<and> new_Date (browser_at 0) (trim (textContent (Elem 11 (html_name ''time'') [] [Text ''TBD'']))) = None
   \<and> format_element (browser_at 0)
        \<lparr>selector = ''time'', name = ''pretty-date'', format = ''YYYY-MM-DD''\<rparr> 11
        \<lparr>document = post [] ''TBD'', detached = []\<rparr>
      = \<lparr>document = post [] ''TBD'', detached = []\<rparr>"
proof -
  have h1: "lookup_page 11 \<lparr>document = post [] ''TBD'', detached = []\<rparr>
     = Some (Elem 11 (html_name ''time'') [] [Text ''TBD''])"
    by (simp add: lookup_page_def all_elements_def post_def)
  have h2: "new_Date (browser_at 0) (trim (textContent (Elem 11 (html_name ''time'') [] [Text ''TBD'']))) = None"
    by (simp add: trim_def is_space_def new_Date_TBD)
  show ?thesis
    using h1 h2 formatter_skips_unparseable [OF h1 h2] by simp
qed

text \<open>
  C9.  When \<open>window.dateFormats\<close> is not set or is not an array, the automatic run
  changes nothing.  An array of configurations is applied one configuration after the
  other, in the order of the array, each to the page that the one before has left.
  To apply a configuration is to go through the elements of the document that its
  selector matches, in tree order, and to rewrite each one whose trimmed text is a date
  when its turn comes: the attribute \<open>datetime\<close> is set if the tag is \<open>TIME\<close>, and
  the content becomes the outer span of the configuration's class around the template
  with its codes replaced.  So with one configuration and one element matched, that
  element has the new content afterwards.
\<close>

theorem applyAllDateFormats_config:
  \<open>(\<not> isArray v \<longrightarrow> applyAllDateFormats b v pg = pg) \<and>
   (\<not> to_boolean v \<longrightarrow> applyAllDateFormats b v pg = pg) \<and>
   applyAllDateFormats b (Array []) pg = pg \<and>
   applyAllDateFormats b (Array (c # cs)) pg =
     applyAllDateFormats b (Array cs) (formatDate b c pg) \<and>
   applyAllDateFormats b (Array (cs @ cs')) pg =
     applyAllDateFormats b (Array cs') (applyAllDateFormats b (Array cs) pg) \<and>
   formatDate b c pg =
     foldl (\<lambda>p r.
         case lookup_page r p of
           None \<Rightarrow> p
         | Some el \<Rightarrow>
             (case new_Date b (trim (textContent el)) of
                None \<Rightarrow> p
              | Some t \<Rightarrow>
                  set_innerHTML b r
                    (''<span class="'' @ name c @ ''">'' @ one_pass (tokens b t) (format c)
                       @ ''</span>'')
                    (if tagName b el = ''TIME''
                     then set_attribute_page r ''datetime'' (split_T_first (toISOString t)) p
                     else p)))
       pg (querySelectorAll b (selector c) (document pg)) \<and>
   (\<forall>r el t.
      querySelectorAll b (selector c) (document pg) = [r] \<and> lookup_page r pg = Some el
        \<and> new_Date b (trim (textContent el)) = Some t \<longrightarrow>
      lookup_page r (applyAllDateFormats b (Array [c]) pg) =
        Some (Elem r (name_of el)
          (if tagName b el = ''TIME''
           then AList.update ''datetime'' (split_T_first (toISOString t)) (attrs el)
           else attrs el)
          (parse_html b
             (''<span class="'' @ name c @ ''">'' @ one_pass (tokens b t) (format c)
                @ ''</span>'')
             (fresh (if tagName b el = ''TIME''
                     then set_attribute_page r ''datetime'' (split_T_first (toISOString t)) pg
                     else pg)))))\<close>
proof -
  have 1: "(\<not> isArray v \<longrightarrow> applyAllDateFormats b v pg = pg) \<and>
   (\<not> to_boolean v \<longrightarrow> applyAllDateFormats b v pg = pg) \<and>
   applyAllDateFormats b (Array []) pg = pg \<and>
   applyAllDateFormats b (Array (c # cs)) pg =
     applyAllDateFormats b (Array cs) (formatDate b c pg) \<and>
   applyAllDateFormats b (Array (cs @ cs')) pg =
     applyAllDateFormats b (Array cs') (applyAllDateFormats b (Array cs) pg)"
    by (simp add: applyAllDateFormats_def isArray_def to_boolean_def
           split: dateFormats_value.splits)
  have 2: \<open>lookup_page r (applyAllDateFormats b (Array [c]) pg) =
        Some (Elem r (name_of el)
          (if tagName b el = ''TIME''
           then AList.update ''datetime'' (split_T_first (toISOString t)) (attrs el)
           else attrs el)
          (parse_html b
             (''<span class="'' @ name c @ ''">'' @ one_pass (tokens b t) (format c)
                @ ''</span>'')
             (fresh (if tagName b el = ''TIME''
                     then set_attribute_page r ''datetime'' (split_T_first (toISOString t)) pg
                     else pg))))\<close>
    if "querySelectorAll b (selector c) (document pg) = [r]" "lookup_page r pg = Some el"
      "new_Date b (trim (textContent el)) = Some t" for r el t
  proof -
    have "applyAllDateFormats b (Array [c]) pg = format_element b c r pg"
      using that(1)
      by (simp add: applyAllDateFormats_def isArray_def to_boolean_def formatDate_def)
    then show ?thesis
      using lookup_page_format_element [OF that(2,3), of c]
      by (simp add: markup_def format_template_one_pass)
  qed
  show ?thesis
    using 1 2 formatDate_steps [of b c pg] by blast
qed


theorem applyAllDateFormats_config_witness:
  "\<not> isArray Undefined \<and> \<not> to_boolean Undefined \<and> \<not> isArray (No_array True)
   \<and> applyAllDateFormats (browser_at 0) Undefined sample_page = sample_page
   \<and> applyAllDateFormats (browser_at 0) (No_array True) sample_page = sample_page
   \<and> querySelectorAll (browser_at 0) (selector sample_config) (document sample_page) = [11]
   \<and> lookup_page 11 sample_page =
       Some (Elem 11 (html_name ''time'') [] [Text ''December 9, 2025''])
   \<and> new_Date (browser_at 0)
         (trim (textContent (Elem 11 (html_name ''time'') [] [Text ''December 9, 2025''])))
       = Some 1765238400000
   \<and> lookup_page 11 (applyAllDateFormats (browser_at 0) (Array [sample_config]) sample_page) =
       Some (Elem 11 (html_name ''time'') [(''datetime'', ''2025-12-09'')]
          [Elem 12 (html_name ''span'') [(''class'', ''pretty-date'')]
            [Elem 13 (html_name ''span'') [(''class'', ''weekday-long'')] [Text ''Tuesday''],
             Text '', '',
             Elem 14 (html_name ''span'') [(''class'', ''month-long'')] [Text ''December''],
             Text '' '',
             Elem 15 (html_name ''span'') [(''class'', ''day-numeric'')] [Text ''9''],
             Text '', '',
             Elem 16 (html_name ''span'') [(''class'', ''year-full'')] [Text ''2025'']]])
   \<and> applyAllDateFormats (browser_at 0) (Array [sample_config, iso_config]) sample_page =
     \<lparr>document = Elem 10 (html_name ''div'') [(''class'', ''post-date'')]
        [Elem 11 (html_name ''time'') [(''datetime'', ''2025-12-09'')]
          [Elem 17 (html_name ''span'') [(''class'', ''iso-date'')]
            [Elem 18 (html_name ''span'') [(''class'', ''year-full'')] [Text ''2025''],
             Text ''-'',
             Elem 19 (html_name ''span'') [(''class'', ''month-numeric'')] [Text ''12''],
             Text ''-'',
             Elem 20 (html_name ''span'') [(''class'', ''day-numeric'')] [Text ''09'']]]],
      detached =
        [Elem 12 (html_name ''span'') [(''class'', ''pretty-date'')]
            [Elem 13 (html_name ''span'') [(''class'', ''weekday-long'')] [Text ''Tuesday''],
             Text '', '',
             Elem 14 (html_name ''span'') [(''class'', ''month-long'')] [Text ''December''],
             Text '' '',
             Elem 15 (html_name ''span'') [(''class'', ''day-numeric'')] [Text ''9''],
             Text '', '',
             Elem 16 (html_name ''span'') [(''class'', ''year-full'')] [Text ''2025'']]]\<rparr>
   \<and> applyAllDateFormats (browser_at 0) (Array [iso_config, sample_config]) sample_page =
     \<lparr>document = Elem 10 (html_name ''div'') [(''class'', ''post-date'')]
        [Elem 11 (html_name ''time'') [(''datetime'', ''2025-12-09'')]
          [Elem 16 (html_name ''span'') [(''class'', ''pretty-date'')]
            [Elem 17 (html_name ''span'') [(''class'', ''weekday-long'')] [Text ''Tuesday''],
             Text '', '',
             Elem 18 (html_name ''span'') [(''class'', ''month-long'')] [Text ''December''],
             Text '' '',
             Elem 19 (html_name ''span'') [(''class'', ''day-numeric'')] [Text ''9''],
             Text '', '',
             Elem 20 (html_name ''span'') [(''class'', ''year-full'')] [Text ''2025'']]]],
      detached =
        [Elem 12 (html_name ''span'') [(''class'', ''iso-date'')]
            [Elem 13 (html_name ''span'') [(''class'', ''year-full'')] [Text ''2025''],
             Text ''-'',
             Elem 14 (html_name ''span'') [(''class'', ''month-numeric'')] [Text ''12''],
             Text ''-'',
             Elem 15 (html_name ''span'') [(''class'', ''day-numeric'')] [Text ''09'']]]\<rparr>"
proof -
  note t = applyAllDateFormats_config [where b = "browser_at 0"]
  note nil = t [THEN conjunct2, THEN conjunct2, THEN conjunct1]
  note cons = t [THEN conjunct2, THEN conjunct2, THEN conjunct2, THEN conjunct1]
  note one = t [THEN conjunct2, THEN conjunct2, THEN conjunct2, THEN conjunct2,
      THEN conjunct2, THEN conjunct2, rule_format]
  have h: "\<not> isArray Undefined" "\<not> to_boolean Undefined" "\<not> isArray (No_array True)"
    by (simp_all add: isArray_def to_boolean_def)
  have u: "applyAllDateFormats (browser_at 0) Undefined sample_page = sample_page"
    using t [where v = Undefined and pg = sample_page] h(1) by blast
  have n: "applyAllDateFormats (browser_at 0) (No_array True) sample_page = sample_page"
    using t [where v = "No_array True" and pg = sample_page] h(3) by blast
  have q: "querySelectorAll (browser_at 0) (selector sample_config) (document sample_page)
      = [11]"
    by (simp add: sample_configs sample_queries)
  have \<open>lookup_page 11 (applyAllDateFormats (browser_at 0) (Array [sample_config]) sample_page)
      = Some (Elem 11 (name_of (Elem 11 (html_name ''time'') [] [Text ''December 9, 2025'']))
          (if tagName (browser_at 0) (Elem 11 (html_name ''time'') [] [Text ''December 9, 2025''])
                = ''TIME''
           then AList.update ''datetime'' (split_T_first (toISOString 1765238400000))
                  (attrs (Elem 11 (html_name ''time'') [] [Text ''December 9, 2025'']))
           else attrs (Elem 11 (html_name ''time'') [] [Text ''December 9, 2025'']))
          (parse_html (browser_at 0)
             (''<span class="'' @ name sample_config @ ''">''
                @ one_pass (tokens (browser_at 0) 1765238400000) (format sample_config)
                @ ''</span>'')
             (fresh (if tagName (browser_at 0)
                          (Elem 11 (html_name ''time'') [] [Text ''December 9, 2025''])
                        = ''TIME''
                     then set_attribute_page 11 ''datetime''
                            (split_T_first (toISOString 1765238400000)) sample_page
                     else sample_page))))\<close>
    by (rule one) (simp add: q sample_page_lookup trim_sample new_Date_sample)
  then have l: "lookup_page 11
        (applyAllDateFormats (browser_at 0) (Array [sample_config]) sample_page) =
       Some (Elem 11 (html_name ''time'') [(''datetime'', ''2025-12-09'')]
          [Elem 12 (html_name ''span'') [(''class'', ''pretty-date'')]
            [Elem 13 (html_name ''span'') [(''class'', ''weekday-long'')] [Text ''Tuesday''],
             Text '', '',
             Elem 14 (html_name ''span'') [(''class'', ''month-long'')] [Text ''December''],
             Text '' '',
             Elem 15 (html_name ''span'') [(''class'', ''day-numeric'')] [Text ''9''],
             Text '', '',
             Elem 16 (html_name ''span'') [(''class'', ''year-full'')] [Text ''2025'']]])"
    using sample_markup_long [of 0] sample_spans_long [of 12]
    by (simp add: tagName_time toISOString_1765238400000 sample_configs markup_def
        format_template_one_pass parse_html_browser_at sample_with_datetime
        sample_with_datetime_fresh)
  have ab: "applyAllDateFormats (browser_at 0) (Array [sample_config, iso_config]) sample_page =
      formatDate (browser_at 0) iso_config (formatDate (browser_at 0) sample_config sample_page)"
    by (simp only: cons nil)
  have ba: "applyAllDateFormats (browser_at 0) (Array [iso_config, sample_config]) sample_page =
      formatDate (browser_at 0) sample_config (formatDate (browser_at 0) iso_config sample_page)"
    by (simp only: cons nil)
  have a: "formatDate (browser_at 0) sample_config sample_page =
     \<lparr>document = Elem 10 (html_name ''div'') [(''class'', ''post-date'')]
        [Elem 11 (html_name ''time'') [(''datetime'', ''2025-12-09'')]
          [Elem 12 (html_name ''span'') [(''class'', ''pretty-date'')]
            [Elem 13 (html_name ''span'') [(''class'', ''weekday-long'')] [Text ''Tuesday''],
             Text '', '',
             Elem 14 (html_name ''span'') [(''class'', ''month-long'')] [Text ''December''],
             Text '' '',
             Elem 15 (html_name ''span'') [(''class'', ''day-numeric'')] [Text ''9''],
             Text '', '',
             Elem 16 (html_name ''span'') [(''class'', ''year-full'')] [Text ''2025'']]]],
      detached = []\<rparr>"
    by (simp add: formatDate_long_first toISOString_1765238400000)
  show ?thesis
    unfolding ab ba a formatDate_iso_first formatDate_iso_second formatDate_long_second
    using h u n q sample_page_lookup sample_page_date l by blast
qed

end
